theory Spec2Isabelle
  imports Main "HOL-Library.Word"
begin

unbundle bit_operations_syntax

section \<open>Samples and the byte swap\<close>

text \<open>
  A colour sample is a \<^verbatim>\<open>uint16_t\<close>. The flush callbacks convert each sample with the
  compiler builtin \<^verbatim>\<open>__builtin_bswap16\<close>, which reverses the order of the two bytes of
  its argument; on 16 bits that is \<^verbatim>\<open>(s << 8) | (s >> 8)\<close>.
\<close>

type_synonym u16 = "16 word"

definition bswap16 :: "u16 \<Rightarrow> u16" where
  "bswap16 s = (push_bit 8 s) OR (drop_bit 8 s)"

text \<open>
  The specification's words for the same operation: \<^verbatim>\<open>swap16(s)\<close> is \<^verbatim>\<open>s\<close> with its high
  and low bytes exchanged. \<open>hi_byte\<close> and \<open>lo_byte\<close> name the two bytes of a sample, and
  \<open>swap16\<close> builds the sample whose high byte is the old low byte and whose low byte is
  the old high byte.
\<close>

definition hi_byte :: "u16 \<Rightarrow> 8 word" where
  "hi_byte s = ucast (drop_bit 8 s)"

definition lo_byte :: "u16 \<Rightarrow> 8 word" where
  "lo_byte s = ucast s"

definition swap16 :: "u16 \<Rightarrow> u16" where
  "swap16 s = word_cat (lo_byte s) (hi_byte s)"

section \<open>Memory\<close>

text \<open>
  Memory is a store of blocks, each an array of samples; a pointer is a block and an
  offset counted in samples (the callbacks cast \<^verbatim>\<open>px_map\<close> to \<^verbatim>\<open>uint16_t *\<close> and
  only ever index whole samples). A null pointer is \<open>None\<close>. An access through a null
  pointer or outside the block it points into is undefined behaviour in C; the model
  makes it a fault, so that a result \<open>Inr\<close> means that every access was inside an object.
\<close>

datatype fault = NullDeref | OutOfBounds | DivByZero

datatype ptr = Ptr (blk: nat) (off: int)

type_synonym store = "nat \<Rightarrow> u16 list option"

definition ptr_add :: "ptr \<Rightarrow> int \<Rightarrow> ptr" where
  "ptr_add p n = Ptr (blk p) (off p + n)"

definition load16 :: "store \<Rightarrow> ptr \<Rightarrow> fault + u16" where
  "load16 m p = (case m (blk p) of None \<Rightarrow> Inl OutOfBounds
                 | Some xs \<Rightarrow> if 0 \<le> off p \<and> off p < int (length xs)
                             then Inr (xs ! nat (off p)) else Inl OutOfBounds)"

definition store16 :: "store \<Rightarrow> ptr \<Rightarrow> u16 \<Rightarrow> fault + store" where
  "store16 m p v = (case m (blk p) of None \<Rightarrow> Inl OutOfBounds
                    | Some xs \<Rightarrow> if 0 \<le> off p \<and> off p < int (length xs)
                                then Inr (m(blk p \<mapsto> xs[nat (off p) := v]))
                                else Inl OutOfBounds)"

text \<open>
  The \<open>n\<close> samples that start at a pointer: what the panel driver is handed by
  \<^verbatim>\<open>pushPixels(p, n, flags)\<close>.
\<close>

definition row_at :: "store \<Rightarrow> ptr option \<Rightarrow> int \<Rightarrow> u16 list" where
  "row_at m p n = (case p of None \<Rightarrow> []
                   | Some q \<Rightarrow> (case m (blk q) of None \<Rightarrow> []
                               | Some xs \<Rightarrow> take (nat n) (drop (nat (off q)) xs)))"

section \<open>External collaborators\<close>

text \<open>
  The panel driver (\<^verbatim>\<open>BB_SPI_LCD\<close>) and the graphics engine (LVGL) are libraries outside
  the repository. Every call into them is recorded, in program order, as an event of the
  trace. The driver is also a parameter: a record of functions on an arbitrary driver
  state \<open>'d\<close>, so that whatever a call does inside the driver (succeed, fail, time out)
  is some function of that state. All driver methods the programs call return nothing
  the programs look at, except \<^verbatim>\<open>width()\<close> and \<^verbatim>\<open>height()\<close>. The model assumes that
  the driver and the engine do not write to the memory of the program.
\<close>

datatype lcd_ref = Lcd_global | Lcd_other nat

datatype draw_flag = DRAW_TO_LCD | DRAW_WITH_DMA

datatype begin_args =
    Begin_panel string
  | Begin_pins int int int int int int int

datatype mem_caps = MALLOC_CAP_DMA | MALLOC_CAP_SPIRAM

datatype callback = My_tick | My_disp_flush

datatype scene_call =
    Lv_scr_act
  | Lv_obj_set_style_bg_color int
  | Lv_label_create
  | Lv_label_set_text_fmt "nat option" string
  | Lv_obj_set_style_text_color "nat option" int
  | Lv_obj_set_style_text_font "nat option" string
  | Lv_obj_set_style_text_align "nat option" string
  | Lv_obj_align "nat option" string int int

datatype event =
    Serial_begin int
  | Delay int
  | Serial_println string
  | Serial_printf string "int list"
  | Lv_init
  | Lv_tick_set_cb callback
  | Lcd_begin begin_args
  | Lcd_setRotation int
  | Heap_caps_malloc int mem_caps
  | Lv_display_create int int
  | Lv_draw_buf_init int int int
  | Lv_display_set_draw_buffers
  | Lv_display_set_flush_cb callback
  | Lv_display_set_user_data lcd_ref
  | Lv_display_set_color_format
  | Lv_display_set_render_mode
  | Lv_display_set_default
  | Lv_scene scene_call
  | Lv_timer_handler
  | Lcd_setAddrWindow lcd_ref int int int int
  | Lcd_pushPixels lcd_ref "u16 list" int "draw_flag set"
  | Lv_display_flush_ready nat

record 'd bb_spi_lcd =
  drv_begin :: "begin_args \<Rightarrow> 'd \<Rightarrow> 'd"
  drv_setRotation :: "int \<Rightarrow> 'd \<Rightarrow> 'd"
  drv_width :: "'d \<Rightarrow> int"
  drv_height :: "'d \<Rightarrow> int"
  drv_setAddrWindow :: "int \<Rightarrow> int \<Rightarrow> int \<Rightarrow> int \<Rightarrow> 'd \<Rightarrow> 'd"
  drv_pushPixels :: "u16 list \<Rightarrow> int \<Rightarrow> draw_flag set \<Rightarrow> 'd \<Rightarrow> 'd"

text \<open>
  The display object of the engine, as far as the programs use it: the resolution it was
  created with, the registered flush callback and the user-data pointer.
\<close>

record lv_display_t =
  disp_id :: nat
  hor_res :: int
  ver_res :: int
  flush_cb :: "callback option"
  user_data :: "lcd_ref option"

record lv_area_t =
  x1 :: int
  y1 :: int
  x2 :: int
  y2 :: int

section \<open>Program state\<close>

text \<open>
  The file-scope variables of an example program (\<^verbatim>\<open>dma_buf\<close>, \<^verbatim>\<open>buf1\<close>,
  \<^verbatim>\<open>disp\<close>, the driver object \<^verbatim>\<open>lcd\<close>), the memory, and the trace of external calls.
  \<^verbatim>\<open>dma_buf_static\<close> is block \<open>0\<close> of the store: 512 samples, zero-initialised as every
  static array is. The last four fields are the locals of \<^verbatim>\<open>setup()\<close> that later statements
  of \<^verbatim>\<open>setup()\<close> read.
\<close>

record 'd sys =
  heap :: store
  next_blk :: nat
  dma_buf :: "ptr option"
  buf1 :: "ptr option"
  disp :: "lv_display_t option"
  lcds :: "lcd_ref \<Rightarrow> 'd"
  trace :: "event list"
  setup_w :: int
  setup_h :: int
  iSize :: int
  buf_h :: int

definition dma_buf_static :: ptr where
  "dma_buf_static = Ptr 0 0"

definition boot :: "'d \<Rightarrow> 'd sys" where
  "boot d0 = \<lparr> heap = (\<lambda>b. None)(0 \<mapsto> replicate 512 0), next_blk = 1,
               dma_buf = None, buf1 = None, disp = None,
               lcds = (\<lambda>l. d0), trace = [],
               setup_w = 0, setup_h = 0, iSize = 0, buf_h = 0 \<rparr>"

definition emit :: "event \<Rightarrow> 'd sys \<Rightarrow> 'd sys" where
  "emit e s = s\<lparr>trace := trace s @ [e]\<rparr>"

definition emits :: "event list \<Rightarrow> 'd sys \<Rightarrow> 'd sys" where
  "emits es s = s\<lparr>trace := trace s @ es\<rparr>"

definition lcd_call :: "lcd_ref \<Rightarrow> ('d \<Rightarrow> 'd) \<Rightarrow> event \<Rightarrow> 'd sys \<Rightarrow> 'd sys" where
  "lcd_call l f e s = emit e (s\<lparr>lcds := (lcds s)(l := f (lcds s l))\<rparr>)"

section \<open>The flush callback\<close>

text \<open>
  The inner loop of both callbacks,
  \<^verbatim>\<open>for (int x = 0; x < w; x++) dma_buf[x] = __builtin_bswap16(src[x]);\<close>
  The sample is read first, then written through \<^verbatim>\<open>dma_buf\<close>; there is no null check.
  The C variables are \<^verbatim>\<open>int\<close>; the model computes with unbounded integers, which is
  what C computes as long as no signed overflow occurs.
\<close>

function convert_row :: "store \<Rightarrow> ptr option \<Rightarrow> ptr \<Rightarrow> int \<Rightarrow> int \<Rightarrow> fault + store" where
  "convert_row m dma src x w =
     (if x < w then
        (case load16 m (ptr_add src x) of
           Inl f \<Rightarrow> Inl f
         | Inr v \<Rightarrow>
            (case dma of
               None \<Rightarrow> Inl NullDeref
             | Some d \<Rightarrow>
                (case store16 m (ptr_add d x) (bswap16 v) of
                   Inl f \<Rightarrow> Inl f
                 | Inr m' \<Rightarrow> convert_row m' dma src (x + 1) w)))
      else Inr m)"
  by pat_completeness auto
termination
  by (relation "measure (\<lambda>(m, dma, src, x, w). nat (w - x))") auto

text \<open>
  The outer loop,
  \<^verbatim>\<open>for (int y = 0; y < h; y++) { <inner loop>; lcd.pushPixels(dma_buf, w, DRAW_TO_LCD | DRAW_WITH_DMA); src += w; }\<close>
\<close>

function push_rows ::
  "'d bb_spi_lcd \<Rightarrow> lcd_ref \<Rightarrow> 'd sys \<Rightarrow> ptr \<Rightarrow> int \<Rightarrow> int \<Rightarrow> int \<Rightarrow> fault + 'd sys" where
  "push_rows drv l s src y w h =
     (if y < h then
        (case convert_row (heap s) (dma_buf s) src 0 w of
           Inl f \<Rightarrow> Inl f
         | Inr m' \<Rightarrow>
            (let px = row_at m' (dma_buf s) w;
                 fl = {DRAW_TO_LCD, DRAW_WITH_DMA};
                 s' = lcd_call l (drv_pushPixels drv px w fl) (Lcd_pushPixels l px w fl)
                        (s\<lparr>heap := m'\<rparr>)
             in push_rows drv l s' (ptr_add src w) (y + 1) w h))
      else Inr s)"
  by pat_completeness auto
termination
  by (relation "measure (\<lambda>(drv, l, s, src, y, w, h). nat (h - y))") auto

text \<open>
  \<^verbatim>\<open>my_disp_flush\<close> of \<^verbatim>\<open>ex01_hello_lvgl/main.cpp\<close>: the driver object is the display's
  user data, \<^verbatim>\<open>(BB_SPI_LCD *)lv_display_get_user_data(disp_ptr)\<close>, and is used without a
  null check.
\<close>

definition my_disp_flush ::
  "'d bb_spi_lcd \<Rightarrow> 'd sys \<Rightarrow> lv_display_t \<Rightarrow> lv_area_t \<Rightarrow> ptr \<Rightarrow> fault + 'd sys" where
  "my_disp_flush drv s disp_ptr area px_map =
     (case user_data disp_ptr of
        None \<Rightarrow> Inl NullDeref
      | Some l \<Rightarrow>
         (let w = x2 area - x1 area + 1;
              h = y2 area - y1 area + 1;
              s1 = lcd_call l (drv_setAddrWindow drv (x1 area) (y1 area) w h)
                     (Lcd_setAddrWindow l (x1 area) (y1 area) w h) s
          in case push_rows drv l s1 px_map 0 w h of
               Inl f \<Rightarrow> Inl f
             | Inr s2 \<Rightarrow> Inr (emit (Lv_display_flush_ready (disp_id disp_ptr)) s2)))"

text \<open>
  \<^verbatim>\<open>my_disp_flush\<close> of \<^verbatim>\<open>ex01_hello_lvgl_copilot/main.cpp\<close>, with its own copy of the
  row loop: the driver object is the file-scope \<^verbatim>\<open>lcd\<close>. The local
  \<^verbatim>\<open>count = w * h\<close> is computed and never used.
\<close>

function push_rows_copilot ::
  "'d bb_spi_lcd \<Rightarrow> 'd sys \<Rightarrow> ptr \<Rightarrow> int \<Rightarrow> int \<Rightarrow> int \<Rightarrow> fault + 'd sys" where
  "push_rows_copilot drv s src y w h =
     (if y < h then
        (case convert_row (heap s) (dma_buf s) src 0 w of
           Inl f \<Rightarrow> Inl f
         | Inr m' \<Rightarrow>
            (let px = row_at m' (dma_buf s) w;
                 fl = {DRAW_TO_LCD, DRAW_WITH_DMA};
                 s' = lcd_call Lcd_global (drv_pushPixels drv px w fl)
                        (Lcd_pushPixels Lcd_global px w fl) (s\<lparr>heap := m'\<rparr>)
             in push_rows_copilot drv s' (ptr_add src w) (y + 1) w h))
      else Inr s)"
  by pat_completeness auto
termination
  by (relation "measure (\<lambda>(drv, s, src, y, w, h). nat (h - y))") auto

definition my_disp_flush_copilot ::
  "'d bb_spi_lcd \<Rightarrow> 'd sys \<Rightarrow> lv_display_t \<Rightarrow> lv_area_t \<Rightarrow> ptr \<Rightarrow> fault + 'd sys" where
  "my_disp_flush_copilot drv s disp_ptr area px_map =
     (let w = x2 area - x1 area + 1;
          h = y2 area - y1 area + 1;
          count = w * h;
          s1 = lcd_call Lcd_global (drv_setAddrWindow drv (x1 area) (y1 area) w h)
                 (Lcd_setAddrWindow Lcd_global (x1 area) (y1 area) w h) s
      in case push_rows_copilot drv s1 px_map 0 w h of
           Inl f \<Rightarrow> Inl f
         | Inr s2 \<Rightarrow> Inr (emit (Lv_display_flush_ready (disp_id disp_ptr)) s2))"

section \<open>Bring-up\<close>

text \<open>
  A statement of \<^verbatim>\<open>setup()\<close> either returns, or never returns because control has
  entered \<^verbatim>\<open>while (1);\<close> (\<open>Halted\<close>, with the state at that point, which no later
  code can change), or traps (\<open>Crashed\<close>). \<open>exec\<close> runs a statement list in order.
\<close>

datatype 'a outcome = Returned 'a | Halted 'a | Crashed fault 'a

fun exec :: "('s \<Rightarrow> 's outcome) list \<Rightarrow> 's \<Rightarrow> 's outcome" where
  "exec [] s = Returned s"
| "exec (c # cs) s =
     (case c s of
        Returned s' \<Rightarrow> exec cs s'
      | Halted s' \<Rightarrow> Halted s'
      | Crashed f s' \<Rightarrow> Crashed f s')"

text \<open>
  What the environment answers during bring-up: whether each allocation and each engine
  call that can fail succeeds.
\<close>

record env =
  dma_malloc_ok :: bool
  spiram_malloc_ok :: bool
  display_create_ok :: bool
  draw_buf_init_ok :: bool
  label_create_ok :: bool

text \<open>
  C arithmetic on the target (32-bit \<^verbatim>\<open>int\<close>, \<^verbatim>\<open>size_t\<close> and \<^verbatim>\<open>uint32_t\<close>):
  conversion to unsigned wraps modulo \<open>2 ^ 32\<close>, signed division truncates towards zero.
\<close>

definition u32 :: "int \<Rightarrow> int" where
  "u32 i = i mod 2 ^ 32"

definition tdiv :: "int \<Rightarrow> int \<Rightarrow> int" where
  "tdiv a b = sgn a * sgn b * (\<bar>a\<bar> div \<bar>b\<bar>)"

text \<open>
  \<^verbatim>\<open>heap_caps_malloc(nbytes, caps)\<close>: on success a fresh block of \<open>nbytes\<close> bytes, that
  is \<open>nbytes div 2\<close> samples (its contents are indeterminate; the programs write before they
  read); on failure the null pointer.
\<close>

definition heap_caps_malloc :: "bool \<Rightarrow> int \<Rightarrow> mem_caps \<Rightarrow> 'd sys \<Rightarrow> ptr option \<times> 'd sys" where
  "heap_caps_malloc ok nbytes caps s =
     (let s1 = emit (Heap_caps_malloc nbytes caps) s
      in if ok
         then (Some (Ptr (next_blk s1) 0),
               s1\<lparr>heap := (heap s1)(next_blk s1 \<mapsto> replicate (nat (nbytes div 2)) 0),
                   next_blk := Suc (next_blk s1)\<rparr>)
         else (None, s1))"

text \<open>
  \<^verbatim>\<open>lv_label_create(scr)\<close> returns the new label object, or null when the engine cannot
  create it. The object is a handle here; the calls that take the label record the
  handle they were given.
\<close>

definition lv_label_create :: "bool \<Rightarrow> nat option" where
  "lv_label_create ok = (if ok then Some 1 else None)"

text \<open>
  \<^verbatim>\<open>create_hello_world_ui()\<close>, the same in both programs but for the label text. The
  result of \<^verbatim>\<open>lv_label_create\<close> is not tested: the calls that follow are made with
  whatever it returned. What the engine does when it is handed a null object is the
  engine's business; the function itself logs nothing and has no \<^verbatim>\<open>while (1);\<close>.
\<close>

definition create_hello_world_ui :: "bool \<Rightarrow> string \<Rightarrow> 'd sys \<Rightarrow> 'd sys" where
  "create_hello_world_ui ok txt s =
     (let label = lv_label_create ok
      in emits [Lv_scene Lv_scr_act,
                Lv_scene (Lv_obj_set_style_bg_color 0x222222),
                Lv_scene Lv_label_create,
                Lv_scene (Lv_label_set_text_fmt label txt),
                Lv_scene (Lv_obj_set_style_text_color label 0xFFFFFF),
                Lv_scene (Lv_obj_set_style_text_font label ''lv_font_montserrat_14''),
                Lv_scene (Lv_obj_set_style_text_align label ''LV_TEXT_ALIGN_CENTER''),
                Lv_scene (Lv_obj_align label ''LV_ALIGN_CENTER'' 0 0)] s)"

subsection \<open>\<^verbatim>\<open>setup()\<close> of \<^verbatim>\<open>ex01_hello_lvgl/main.cpp\<close>\<close>

definition m_serial :: "'d sys \<Rightarrow> 'd sys outcome" where
  "m_serial s =
     Returned (emits [Serial_begin 115200, Delay 2000,
       Serial_println (''--- Guition S3 3.5'' @ [CHR 0x22] @
                       '' LVGL v9 Test (Manual Pin Config) ---'')] s)"

definition m_lvgl :: "'d sys \<Rightarrow> 'd sys outcome" where
  "m_lvgl s =
     Returned (emits [Lv_init, Lv_tick_set_cb My_tick,
       Serial_println ''LVGL (lv_init) done.''] s)"

definition m_lcd :: "'d bb_spi_lcd \<Rightarrow> 'd sys \<Rightarrow> 'd sys outcome" where
  "m_lcd drv s =
     (let args = Begin_pins 31 0 40000000 45 8 (- 1) 1;
          s1 = lcd_call Lcd_global (drv_begin drv args) (Lcd_begin args) s;
          s2 = emit (Serial_println ''Display Driver (bb_spi_lcd) manually initialized.'') s1;
          s3 = s2\<lparr>setup_w := 320, setup_h := 480\<rparr>
      in Returned (emit (Serial_printf ''LCD dimensions: %d w x %d h\<newline>''
                           [setup_w s3, setup_h s3]) s3))"

definition m_dma :: "env \<Rightarrow> 'd sys \<Rightarrow> 'd sys outcome" where
  "m_dma e s =
     (case heap_caps_malloc (dma_malloc_ok e) (u32 (2 * setup_w s)) MALLOC_CAP_DMA s of
        (None, s1) \<Rightarrow>
          Returned (emit (Serial_println
                      ''Warning: DMA buffer allocation failed, using static fallback'')
                    (s1\<lparr>dma_buf := Some dma_buf_static\<rparr>))
      | (Some p, s1) \<Rightarrow>
          Returned (emit (Serial_printf ''DMA row buffer allocated (%d bytes)\<newline>''
                      [u32 (2 * setup_w s)])
                    (s1\<lparr>dma_buf := Some p\<rparr>)))"

text \<open>\<^verbatim>\<open>DRAW_BUF_SIZE\<close> is \<^verbatim>\<open>(LCD_WIDTH * LCD_HEIGHT / 10)\<close> with the two macros 320 and 480.\<close>

definition DRAW_BUF_SIZE :: int where
  "DRAW_BUF_SIZE = tdiv (320 * 480) 10"

definition m_buf1 :: "env \<Rightarrow> 'd sys \<Rightarrow> 'd sys outcome" where
  "m_buf1 e s =
     (let s0 = s\<lparr>iSize := u32 DRAW_BUF_SIZE\<rparr>
      in case heap_caps_malloc (spiram_malloc_ok e) (iSize s0) MALLOC_CAP_SPIRAM s0 of
           (None, s1) \<Rightarrow>
             Halted (emit (Serial_println
                       ''FATAL ERROR: Failed to allocate draw buffer in PSRAM!'')
                     (s1\<lparr>buf1 := None\<rparr>))
         | (Some p, s1) \<Rightarrow>
             Returned (emit (Serial_printf
                         ''LVGL draw buffer allocated in PSRAM (%d bytes)\<newline>'' [iSize s0])
                       (s1\<lparr>buf1 := Some p\<rparr>)))"

text \<open>
  \<^verbatim>\<open>lv_display_create(w, h)\<close> returns a new display object of that resolution, with no
  callback and no user data yet, or null.
\<close>

definition lv_display_create :: "bool \<Rightarrow> int \<Rightarrow> int \<Rightarrow> 'd sys \<Rightarrow> 'd sys" where
  "lv_display_create ok w h s =
     (emit (Lv_display_create w h) s)
       \<lparr>disp := (if ok then Some \<lparr>disp_id = 0, hor_res = w, ver_res = h,
                                  flush_cb = None, user_data = None\<rparr>
                  else None)\<rparr>"

definition m_display :: "env \<Rightarrow> 'd sys \<Rightarrow> 'd sys outcome" where
  "m_display e s =
     (let s1 = lv_display_create (display_create_ok e) (setup_w s) (setup_h s) s
      in case disp s1 of
           None \<Rightarrow> Halted (emit (Serial_println ''FATAL ERROR: lv_display_create failed'') s1)
         | Some d \<Rightarrow> Returned s1)"

definition m_draw_buf :: "env \<Rightarrow> 'd sys \<Rightarrow> 'd sys outcome" where
  "m_draw_buf e s =
     (if u32 (2 * setup_w s) = 0 then Crashed DivByZero s
      else
        (let s1 = emit (Lv_draw_buf_init (setup_w s)
                          (iSize s div u32 (2 * setup_w s)) (iSize s)) s
         in if \<not> draw_buf_init_ok e
            then Halted (emit (Serial_println ''FATAL ERROR: lv_draw_buf_init failed'') s1)
            else Returned (emit (Serial_println ''LVGL draw buffer initialized.'') s1)))"

definition m_register :: "'d sys \<Rightarrow> 'd sys outcome" where
  "m_register s =
     (let s1 = emit Lv_display_set_draw_buffers s;
          s2 = (emit (Lv_display_set_flush_cb My_disp_flush) s1)
                 \<lparr>disp := map_option (\<lambda>d. d\<lparr>flush_cb := Some My_disp_flush\<rparr>) (disp s1)\<rparr>;
          s3 = (emit (Lv_display_set_user_data Lcd_global) s2)
                 \<lparr>disp := map_option (\<lambda>d. d\<lparr>user_data := Some Lcd_global\<rparr>) (disp s2)\<rparr>
      in Returned (emits [Lv_display_set_color_format, Lv_display_set_render_mode,
                          Lv_display_set_default,
                          Serial_println ''LVGL display created and configured.''] s3))"

definition m_ui :: "env \<Rightarrow> 'd sys \<Rightarrow> 'd sys outcome" where
  "m_ui e s =
     Returned (emit (Serial_println ''UI created. Starting loop.'')
       (create_hello_world_ui (label_create_ok e)
          ''Hello, LVGL %s\<newline>\<newline>This is the MANUAL PIN\<newline>'recipe' test.'' s))"

definition setup_manual_stmts :: "'d bb_spi_lcd \<Rightarrow> env \<Rightarrow> ('d sys \<Rightarrow> 'd sys outcome) list" where
  "setup_manual_stmts drv e =
     [m_serial, m_lvgl, m_lcd drv, m_dma e, m_buf1 e, m_display e, m_draw_buf e,
      m_register, m_ui e]"

definition setup_manual :: "'d bb_spi_lcd \<Rightarrow> env \<Rightarrow> 'd sys \<Rightarrow> 'd sys outcome" where
  "setup_manual drv e s = exec (setup_manual_stmts drv e) s"

subsection \<open>\<^verbatim>\<open>setup()\<close> of \<^verbatim>\<open>ex01_hello_lvgl_copilot/main.cpp\<close>\<close>

definition c_serial :: "'d sys \<Rightarrow> 'd sys outcome" where
  "c_serial s =
     Returned (emits [Serial_begin 115200, Delay 2000,
       Serial_println (''--- Guition S3 3.5'' @ [CHR 0x22] @
                       '' LVGL v9 Test (Corrected) ---'')] s)"

definition c_lvgl :: "'d sys \<Rightarrow> 'd sys outcome" where
  "c_lvgl s =
     Returned (emits [Lv_init, Lv_tick_set_cb My_tick,
       Serial_println ''LVGL (lv_init) done.''] s)"

definition c_lcd :: "'d bb_spi_lcd \<Rightarrow> 'd sys \<Rightarrow> 'd sys outcome" where
  "c_lcd drv s =
     (let args = Begin_panel ''DISPLAY_CYD_535'';
          s1 = lcd_call Lcd_global (drv_begin drv args) (Lcd_begin args) s;
          s2 = lcd_call Lcd_global (drv_setRotation drv 270) (Lcd_setRotation 270) s1;
          s3 = emit (Serial_println ''Display Driver (bb_spi_lcd) initialized.'') s2
      in Returned (s3\<lparr>setup_w := drv_width drv (lcds s3 Lcd_global),
                      setup_h := drv_height drv (lcds s3 Lcd_global)\<rparr>))"

text \<open>
  \<^verbatim>\<open>DRAW_BUF_SIZE(w, h)\<close> is \<^verbatim>\<open>((w * h) / 10 * sizeof(uint16_t))\<close>: the division is on
  \<^verbatim>\<open>int\<close>, the product with \<^verbatim>\<open>sizeof\<close> on \<^verbatim>\<open>size_t\<close>. Then
  \<^verbatim>\<open>buf_h = (iSize / sizeof(uint16_t)) / w\<close>, an unsigned division that traps when
  \<^verbatim>\<open>w\<close> is zero, and \<^verbatim>\<open>if (buf_h == 0) buf_h = 1\<close>.
\<close>

definition DRAW_BUF_SIZE_wh :: "int \<Rightarrow> int \<Rightarrow> int" where
  "DRAW_BUF_SIZE_wh w h = u32 (u32 (tdiv (w * h) 10) * 2)"

definition c_sizes :: "'d sys \<Rightarrow> 'd sys outcome" where
  "c_sizes s =
     (let s1 = s\<lparr>iSize := DRAW_BUF_SIZE_wh (setup_w s) (setup_h s)\<rparr>
      in if u32 (setup_w s1) = 0 then Crashed DivByZero s1
         else (let s2 = s1\<lparr>buf_h := (iSize s1 div 2) div u32 (setup_w s1)\<rparr>
               in Returned (if buf_h s2 = 0 then s2\<lparr>buf_h := 1\<rparr> else s2)))"

definition c_buf1 :: "env \<Rightarrow> 'd sys \<Rightarrow> 'd sys outcome" where
  "c_buf1 e s =
     (case heap_caps_malloc (spiram_malloc_ok e) (iSize s) MALLOC_CAP_SPIRAM s of
        (None, s1) \<Rightarrow>
          Halted (emit (Serial_println
                    ''FATAL ERROR: Failed to allocate draw buffer in PSRAM!'')
                  (s1\<lparr>buf1 := None\<rparr>))
      | (Some p, s1) \<Rightarrow>
          Returned (emit (Serial_printf
                      ''Draw buffer allocated in PSRAM (%d bytes)\<newline>'' [iSize s])
                    (s1\<lparr>buf1 := Some p\<rparr>)))"

definition c_draw_buf :: "env \<Rightarrow> 'd sys \<Rightarrow> 'd sys outcome" where
  "c_draw_buf e s =
     (let s1 = emit (Lv_draw_buf_init (setup_w s) (buf_h s) (iSize s)) s
      in if \<not> draw_buf_init_ok e
         then Halted (emit (Serial_println ''FATAL ERROR: lv_draw_buf_init failed'') s1)
         else Returned (emit (Serial_println ''LVGL draw buffer initialized in PSRAM.'') s1))"

definition c_display :: "env \<Rightarrow> 'd sys \<Rightarrow> 'd sys outcome" where
  "c_display e s =
     (let s1 = lv_display_create (display_create_ok e) (setup_w s) (setup_h s) s
      in case disp s1 of
           None \<Rightarrow> Halted (emit (Serial_println ''FATAL ERROR: lv_display_create failed'') s1)
         | Some d \<Rightarrow> Returned s1)"

definition c_register :: "'d sys \<Rightarrow> 'd sys outcome" where
  "c_register s =
     (let s1 = emit Lv_display_set_draw_buffers s;
          s2 = (emit (Lv_display_set_flush_cb My_disp_flush) s1)
                 \<lparr>disp := map_option (\<lambda>d. d\<lparr>flush_cb := Some My_disp_flush\<rparr>) (disp s1)\<rparr>
      in Returned (emits [Lv_display_set_color_format, Lv_display_set_render_mode,
                          Lv_display_set_default,
                          Serial_println ''LVGL display created and configured.''] s2))"

definition c_dma :: "env \<Rightarrow> 'd sys \<Rightarrow> 'd sys outcome" where
  "c_dma e s =
     (case heap_caps_malloc (dma_malloc_ok e) (u32 (2 * setup_w s)) MALLOC_CAP_DMA s of
        (None, s1) \<Rightarrow>
          Returned (emit (Serial_println
                      ''Warning: dma_buf allocation failed, using static fallback'')
                    (s1\<lparr>dma_buf := Some dma_buf_static\<rparr>))
      | (Some p, s1) \<Rightarrow> Returned (s1\<lparr>dma_buf := Some p\<rparr>))"

definition c_ui :: "env \<Rightarrow> 'd sys \<Rightarrow> 'd sys outcome" where
  "c_ui e s =
     Returned (emit (Serial_println ''UI created. Starting loop.'')
       (create_hello_world_ui (label_create_ok e)
          ''Hello, LVGL %s\<newline>\<newline>This is the CORRECTED\<newline>bitbank 'recipe'.'' s))"

definition setup_copilot_stmts :: "'d bb_spi_lcd \<Rightarrow> env \<Rightarrow> ('d sys \<Rightarrow> 'd sys outcome) list" where
  "setup_copilot_stmts drv e =
     [c_serial, c_lvgl, c_lcd drv, c_sizes, c_buf1 e, c_draw_buf e, c_display e,
      c_register, c_dma e, c_ui e]"

definition setup_copilot :: "'d bb_spi_lcd \<Rightarrow> env \<Rightarrow> 'd sys \<Rightarrow> 'd sys outcome" where
  "setup_copilot drv e s = exec (setup_copilot_stmts drv e) s"

subsection \<open>The sketch as the Arduino core runs it\<close>

text \<open>
  \<^verbatim>\<open>loop()\<close> is the same in both programs: \<^verbatim>\<open>lv_timer_handler(); delay(5);\<close>. The
  Arduino core calls \<^verbatim>\<open>setup()\<close> once and then \<^verbatim>\<open>loop()\<close> again and again; \<open>run\<close>
  gives the state after \<open>n\<close> calls of \<^verbatim>\<open>loop()\<close>, or the state in which control stopped
  for good.
\<close>

definition loop :: "'d sys \<Rightarrow> 'd sys" where
  "loop s = emits [Lv_timer_handler, Delay 5] s"

definition run :: "('d sys \<Rightarrow> 'd sys outcome) \<Rightarrow> nat \<Rightarrow> 'd sys \<Rightarrow> 'd sys outcome" where
  "run su n s =
     (case su s of
        Returned s' \<Rightarrow> Returned ((loop ^^ n) s')
      | Halted s' \<Rightarrow> Halted s'
      | Crashed f s' \<Rightarrow> Crashed f s')"

section \<open>Vocabulary of the properties\<close>

text \<open>
  Row \<open>k\<close> of a tightly packed source: the \<open>w\<close> samples that start \<open>k * w\<close> samples
  after offset \<open>ofs\<close> of the source block.
\<close>

definition src_row :: "u16 list \<Rightarrow> int \<Rightarrow> int \<Rightarrow> nat \<Rightarrow> u16 list" where
  "src_row sbuf ofs w k = take (nat w) (drop (nat (ofs + int k * w)) sbuf)"

definition push_event :: "lcd_ref \<Rightarrow> int \<Rightarrow> u16 list \<Rightarrow> event" where
  "push_event l w px = Lcd_pushPixels l px w {DRAW_TO_LCD, DRAW_WITH_DMA}"

text \<open>
  \<open>row_frame dma w m m'\<close>: store \<open>m'\<close> differs from \<open>m\<close> at most in the \<open>w\<close> samples
  that start at \<open>dma\<close>; no block appears, disappears or changes its size.
\<close>

definition row_frame :: "ptr option \<Rightarrow> int \<Rightarrow> store \<Rightarrow> store \<Rightarrow> bool" where
  "row_frame dma w m m' =
     (case dma of
        None \<Rightarrow> m' = m
      | Some d \<Rightarrow>
          (\<forall>b. b \<noteq> blk d \<longrightarrow> m' b = m b) \<and>
          (case m (blk d) of
             None \<Rightarrow> m' (blk d) = None
           | Some xs \<Rightarrow>
              (\<exists>xs'. m' (blk d) = Some xs' \<and> length xs' = length xs \<and>
                 (\<forall>i < length xs. int i < off d \<or> off d + w \<le> int i \<longrightarrow> xs' ! i = xs ! i))))"

fun is_flush_ready :: "event \<Rightarrow> bool" where
  "is_flush_ready (Lv_display_flush_ready i) = True"
| "is_flush_ready e = False"

fun is_driver_call :: "event \<Rightarrow> bool" where
  "is_driver_call (Lcd_setAddrWindow l x y w h) = True"
| "is_driver_call (Lcd_pushPixels l px w fl) = True"
| "is_driver_call e = False"

fun pushed_rows :: "event list \<Rightarrow> u16 list list" where
  "pushed_rows [] = []"
| "pushed_rows (Lcd_pushPixels l px w fl # es) = px # pushed_rows es"
| "pushed_rows (e # es) = pushed_rows es"

text \<open>The stages of bring-up that the specification names, and the calls that mark them.\<close>

datatype stage =
    Engine_init | Tick_source | Panel_init | Row_buffer_alloc | Pixel_buffer_alloc
  | Surface_register | Scene_build | Render_loop

fun stage_of :: "event \<Rightarrow> stage option" where
  "stage_of Lv_init = Some Engine_init"
| "stage_of (Lv_tick_set_cb c) = Some Tick_source"
| "stage_of (Lcd_begin a) = Some Panel_init"
| "stage_of (Heap_caps_malloc n MALLOC_CAP_DMA) = Some Row_buffer_alloc"
| "stage_of (Heap_caps_malloc n MALLOC_CAP_SPIRAM) = Some Pixel_buffer_alloc"
| "stage_of (Lv_display_create w h) = Some Surface_register"
| "stage_of (Lv_display_set_flush_cb c) = Some Surface_register"
| "stage_of (Lv_scene c) = Some Scene_build"
| "stage_of Lv_timer_handler = Some Render_loop"
| "stage_of e = None"

fun stage_marks :: "event list \<Rightarrow> stage list" where
  "stage_marks [] = []"
| "stage_marks (e # es) = (case stage_of e of None \<Rightarrow> stage_marks es
                           | Some g \<Rightarrow> g # stage_marks es)"

definition stages :: "event list \<Rightarrow> stage list" where
  "stages tr = remdups_adj (stage_marks tr)"

text \<open>The order the specification gives for every program, and the order of the copilot
  program.\<close>

definition spec_order :: "stage list" where
  "spec_order = [Engine_init, Tick_source, Panel_init, Row_buffer_alloc, Pixel_buffer_alloc,
                 Surface_register, Scene_build, Render_loop]"

definition copilot_order :: "stage list" where
  "copilot_order = [Engine_init, Tick_source, Panel_init, Pixel_buffer_alloc,
                    Surface_register, Row_buffer_alloc, Scene_build, Render_loop]"

fun is_halted :: "'a outcome \<Rightarrow> bool" where
  "is_halted (Halted s) = True"
| "is_halted r = False"

fun state_of :: "'a outcome \<Rightarrow> 'a" where
  "state_of (Returned s) = s"
| "state_of (Halted s) = s"
| "state_of (Crashed f s) = s"

definition fatal_ok :: "env \<Rightarrow> bool" where
  "fatal_ok e = (spiram_malloc_ok e \<and> display_create_ok e \<and> draw_buf_init_ok e)"

text \<open>What \<^verbatim>\<open>lcd.width()\<close> and \<^verbatim>\<open>lcd.height()\<close> return in the copilot program, from a driver
  that starts in state \<open>d0\<close>.\<close>

definition copilot_w :: "'d bb_spi_lcd \<Rightarrow> 'd \<Rightarrow> int" where
  "copilot_w drv d0 =
     drv_width drv (drv_setRotation drv 270 (drv_begin drv (Begin_panel ''DISPLAY_CYD_535'') d0))"

definition copilot_h :: "'d bb_spi_lcd \<Rightarrow> 'd \<Rightarrow> int" where
  "copilot_h drv d0 =
     drv_height drv (drv_setRotation drv 270 (drv_begin drv (Begin_panel ''DISPLAY_CYD_535'') d0))"



text \<open>
  \<open>src_ok m px n\<close>: \<open>n\<close> samples can be read at \<open>px\<close>, as the engine promises for the
  \<open>w * h\<close> samples of a dirty rectangle.
\<close>

definition src_ok :: "store \<Rightarrow> ptr \<Rightarrow> int \<Rightarrow> bool" where
  "src_ok m px n = (case m (blk px) of None \<Rightarrow> False
                    | Some sbuf \<Rightarrow> 0 \<le> off px \<and> off px + n \<le> int (length sbuf))"

text \<open>The value \<^verbatim>\<open>buf_h\<close> ends with in the copilot program, as a function of the panel size.\<close>

definition c_buf_h :: "int \<Rightarrow> int \<Rightarrow> int" where
  "c_buf_h w h = (let b = (DRAW_BUF_SIZE_wh w h div 2) div u32 w in if b = 0 then 1 else b)"

fun is_fatal_log :: "event \<Rightarrow> bool" where
  "is_fatal_log (Serial_println m) = (take 11 m = ''FATAL ERROR'')"
| "is_fatal_log e = False"

text \<open>
  \<open>fallback_in_use s\<close>: \<^verbatim>\<open>dma_buf\<close> points to \<^verbatim>\<open>dma_buf_static\<close>, an array of 512 samples.
\<close>

definition fallback_in_use :: "'d sys \<Rightarrow> bool" where
  "fallback_in_use s =
     (dma_buf s = Some dma_buf_static \<and>
      (case heap s (blk dma_buf_static) of None \<Rightarrow> False | Some b \<Rightarrow> length b = 512))"

text \<open>The driver has no influence on what the row loop does to memory and to the
  trace: two runs with different drivers, from states that agree on the memory, on
  \<^verbatim>\<open>dma_buf\<close> and on the trace so far, fail alike or return states that agree again.\<close>

definition same_view :: "'d sys \<Rightarrow> 'e sys \<Rightarrow> bool" where
  "same_view s t = (heap t = heap s \<and> dma_buf t = dma_buf s \<and> trace t = trace s)"

text \<open>A driver and environments to run the programs on: a driver without state that
  reports a 480 by 320 panel, and environments in which one call fails.\<close>

definition panel_480 :: "unit bb_spi_lcd" where
  "panel_480 = \<lparr> drv_begin = (\<lambda>a d. d), drv_setRotation = (\<lambda>r d. d),
                 drv_width = (\<lambda>d. 480), drv_height = (\<lambda>d. 320),
                 drv_setAddrWindow = (\<lambda>x y w h d. d),
                 drv_pushPixels = (\<lambda>px n fl d. d) \<rparr>"

definition env_ok :: env where
  "env_ok = \<lparr> dma_malloc_ok = True, spiram_malloc_ok = True,
              display_create_ok = True, draw_buf_init_ok = True,
              label_create_ok = True \<rparr>"

definition env_no_dma :: env where
  "env_no_dma = env_ok\<lparr>dma_malloc_ok := False\<rparr>"

definition env_no_psram :: env where
  "env_no_psram = env_ok\<lparr>spiram_malloc_ok := False\<rparr>"

definition env_no_label :: env where
  "env_no_label = env_ok\<lparr>label_create_ok := False\<rparr>"


text \<open>A small machine state for running the callbacks: a row buffer of two samples in
  block 0 and a source of four samples in block 1.\<close>

definition tiny :: "unit sys" where
  "tiny = (boot ())\<lparr> heap := (\<lambda>b. None)(0 \<mapsto> [0, 0], 1 \<mapsto> [0x00FF, 0xFF00, 0x1234, 0xFFFF]),
                    next_blk := 2, dma_buf := Some (Ptr 0 0) \<rparr>"

definition tiny_disp :: lv_display_t where
  "tiny_disp = \<lparr> disp_id = 0, hor_res = 2, ver_res = 2,
                 flush_cb = Some My_disp_flush, user_data = Some Lcd_global \<rparr>"

definition tiny_area :: lv_area_t where
  "tiny_area = \<lparr> x1 = 0, y1 = 0, x2 = 1, y2 = 1 \<rparr>"

declare convert_row.simps [simp del] push_rows.simps [simp del] push_rows_copilot.simps [simp del]

section \<open>The byte swap\<close>

lemma bswap16_swap16: "bswap16 s = swap16 s"
  unfolding bswap16_def swap16_def hi_byte_def lo_byte_def
  by (rule bit_word_eqI) (auto simp add: bit_simps dest: bit_imp_le_length)

lemma hi_byte_swap16: "hi_byte (swap16 s) = lo_byte s"
  unfolding swap16_def hi_byte_def lo_byte_def
  by (rule bit_word_eqI) (auto simp add: bit_simps)

lemma lo_byte_swap16: "lo_byte (swap16 s) = hi_byte s"
  unfolding swap16_def hi_byte_def lo_byte_def
  by (rule bit_word_eqI) (auto simp add: bit_simps)

section \<open>One row\<close>

lemma store16_Inr:
  "store16 m p v = Inr m' \<Longrightarrow>
     \<exists>xs. m (blk p) = Some xs \<and> 0 \<le> off p \<and> off p < int (length xs) \<and>
          m' = m(blk p \<mapsto> xs[nat (off p) := v])"
  by (auto simp: store16_def split: option.splits if_splits)

lemma load16_Inr:
  "load16 m p = Inr v \<Longrightarrow>
     \<exists>xs. m (blk p) = Some xs \<and> 0 \<le> off p \<and> off p < int (length xs) \<and> v = xs ! nat (off p)"
  by (auto simp: load16_def split: option.splits if_splits)

lemma convert_row_done: "\<not> x < w \<Longrightarrow> convert_row m dma src x w = Inr m"
  by (simp add: convert_row.simps)

lemma convert_row_step:
  "x < w \<Longrightarrow> convert_row m dma src x w = Inr m' \<Longrightarrow>
     \<exists>d v m1. dma = Some d \<and> load16 m (ptr_add src x) = Inr v \<and>
              store16 m (ptr_add d x) (bswap16 v) = Inr m1 \<and>
              convert_row m1 dma src (x + 1) w = Inr m'"
  by (subst (asm) convert_row.simps) (auto split: sum.splits option.splits)

text \<open>Frame and shape of a successful row conversion.\<close>

lemma convert_row_shape:
  "convert_row m (Some d) src x w = Inr m' \<Longrightarrow> x < w \<Longrightarrow> 0 \<le> x \<Longrightarrow>
     \<exists>dbuf dbuf'. m (blk d) = Some dbuf \<and> m' = m(blk d \<mapsto> dbuf') \<and>
        length dbuf' = length dbuf \<and> 0 \<le> off d + x \<and> off d + w \<le> int (length dbuf) \<and>
        (\<forall>i < length dbuf. int i < off d + x \<or> off d + w \<le> int i \<longrightarrow> dbuf' ! i = dbuf ! i)"
proof (induction "nat (w - x)" arbitrary: m x)
  case 0
  then show ?case by simp
next
  case (Suc n)
  from convert_row_step [OF Suc.prems(2) Suc.prems(1)]
  obtain v m1 where ld: "load16 m (ptr_add src x) = Inr v"
    and st: "store16 m (ptr_add d x) (bswap16 v) = Inr m1"
    and rest: "convert_row m1 (Some d) src (x + 1) w = Inr m'"
    by auto
  from store16_Inr [OF st] obtain dbuf where
    db: "m (blk d) = Some dbuf" and lo: "0 \<le> off d + x" and hi: "off d + x < int (length dbuf)"
    and m1: "m1 = m(blk d \<mapsto> dbuf[nat (off d + x) := bswap16 v])"
    by (auto simp: ptr_add_def)
  show ?case
  proof (cases "x + 1 < w")
    case False
    with rest have "m' = m1" by (simp add: convert_row_done)
    with db lo hi m1 False Suc.prems show ?thesis
      by (auto simp: nth_list_update)
  next
    case True
    have n: "n = nat (w - (x + 1))" using Suc.hyps(2) by linarith
    from Suc.hyps(1) [OF n rest True] Suc.prems(3)
    obtain dbuf1 dbuf' where a: "m1 (blk d) = Some dbuf1" and b: "m' = m1(blk d \<mapsto> dbuf')"
      and c: "length dbuf' = length dbuf1" and e: "off d + w \<le> int (length dbuf1)"
      and f: "\<forall>i < length dbuf1. int i < off d + (x + 1) \<or> off d + w \<le> int i \<longrightarrow> dbuf' ! i = dbuf1 ! i"
      by auto
    from a m1 have d1: "dbuf1 = dbuf[nat (off d + x) := bswap16 v]" by simp
    have g: "\<forall>i < length dbuf. int i < off d + x \<or> off d + w \<le> int i \<longrightarrow> dbuf' ! i = dbuf ! i"
    proof (intro allI impI)
      fix i assume i: "i < length dbuf" and r: "int i < off d + x \<or> off d + w \<le> int i"
      with True lo have ne: "i \<noteq> nat (off d + x)" by linarith
      from i r f d1 have "dbuf' ! i = dbuf1 ! i" by auto
      with ne d1 show "dbuf' ! i = dbuf ! i" by simp
    qed
    have "m' = m(blk d \<mapsto> dbuf')" using b m1 by simp
    moreover have "length dbuf' = length dbuf" using c d1 by simp
    moreover have "off d + w \<le> int (length dbuf)" using e d1 by simp
    ultimately show ?thesis using db lo g by blast
  qed
qed


lemma convert_row_src:
  "convert_row m (Some d) src x w = Inr m' \<Longrightarrow> x < w \<Longrightarrow> 0 \<le> x \<Longrightarrow>
     \<exists>sbuf. m (blk src) = Some sbuf \<and> 0 \<le> off src + x \<and> off src + w \<le> int (length sbuf)"
proof (induction "nat (w - x)" arbitrary: m x)
  case 0
  then show ?case by simp
next
  case (Suc n)
  from convert_row_step [OF Suc.prems(2) Suc.prems(1)]
  obtain v m1 where ld: "load16 m (ptr_add src x) = Inr v"
    and st: "store16 m (ptr_add d x) (bswap16 v) = Inr m1"
    and rest: "convert_row m1 (Some d) src (x + 1) w = Inr m'"
    by auto
  from load16_Inr [OF ld] obtain sbuf where
    sb: "m (blk src) = Some sbuf" and lo: "0 \<le> off src + x"
    and hi: "off src + x < int (length sbuf)"
    by (auto simp: ptr_add_def)
  show ?case
  proof (cases "x + 1 < w")
    case False
    with sb lo hi Suc.prems show ?thesis by auto
  next
    case True
    have n: "n = nat (w - (x + 1))" using Suc.hyps(2) by linarith
    from Suc.hyps(1) [OF n rest True] Suc.prems(3)
    obtain sbuf1 where a: "m1 (blk src) = Some sbuf1"
      and e: "off src + w \<le> int (length sbuf1)" by auto
    from store16_Inr [OF st] obtain dbuf where
      "m (blk d) = Some dbuf" and m1: "m1 = m(blk d \<mapsto> dbuf[nat (off d + x) := bswap16 v])"
      by (auto simp: ptr_add_def)
    with a sb have "length sbuf1 = length sbuf"
      by (cases "blk src = blk d") auto
    with sb lo e show ?thesis by auto
  qed
qed

lemma convert_row_content:
  "convert_row m (Some d) src x w = Inr m' \<Longrightarrow> x < w \<Longrightarrow> 0 \<le> x \<Longrightarrow> blk d \<noteq> blk src \<Longrightarrow>
   m (blk src) = Some sbuf \<Longrightarrow> m' (blk d) = Some dbuf' \<Longrightarrow> x \<le> i \<Longrightarrow> i < w \<Longrightarrow>
     dbuf' ! nat (off d + i) = bswap16 (sbuf ! nat (off src + i))"
proof (induction "nat (w - x)" arbitrary: m x)
  case 0
  then show ?case by simp
next
  case (Suc n)
  from convert_row_step [OF Suc.prems(2) Suc.prems(1)]
  obtain v m1 where ld: "load16 m (ptr_add src x) = Inr v"
    and st: "store16 m (ptr_add d x) (bswap16 v) = Inr m1"
    and rest: "convert_row m1 (Some d) src (x + 1) w = Inr m'"
    by auto
  from load16_Inr [OF ld] Suc.prems(5) have v: "v = sbuf ! nat (off src + x)"
    by (auto simp: ptr_add_def)
  from store16_Inr [OF st] obtain dbuf where
    db: "m (blk d) = Some dbuf" and lo: "0 \<le> off d + x" and hi: "off d + x < int (length dbuf)"
    and m1: "m1 = m(blk d \<mapsto> dbuf[nat (off d + x) := bswap16 v])"
    by (auto simp: ptr_add_def)
  have here: "(dbuf[nat (off d + x) := bswap16 v]) ! nat (off d + x) = bswap16 v"
    using lo hi by simp
  show ?case
  proof (cases "x + 1 < w")
    case False
    with rest have "m' = m1" by (simp add: convert_row_done)
    moreover from False Suc.prems have "i = x" by simp
    ultimately show ?thesis using m1 Suc.prems(6) here v by simp
  next
    case True
    have n: "n = nat (w - (x + 1))" using Suc.hyps(2) by linarith
    have s1: "m1 (blk src) = Some sbuf" using m1 Suc.prems(4,5) by simp
    show ?thesis
    proof (cases "i = x")
      case False
      with Suc.prems have "x + 1 \<le> i" by simp
      from Suc.hyps(1) [OF n rest True _ Suc.prems(4) s1 Suc.prems(6) this Suc.prems(8)]
        Suc.prems(3)
      show ?thesis by simp
    next
      case ix: True
      from convert_row_shape [OF rest True] Suc.prems(3)
      obtain dbuf1 dbuf2 where a: "m1 (blk d) = Some dbuf1" and b: "m' = m1(blk d \<mapsto> dbuf2)"
        and f: "\<forall>j < length dbuf1. int j < off d + (x + 1) \<or> off d + w \<le> int j \<longrightarrow> dbuf2 ! j = dbuf1 ! j"
        by auto
      from b Suc.prems(6) have d2: "dbuf2 = dbuf'" by simp
      from a m1 have d1: "dbuf1 = dbuf[nat (off d + x) := bswap16 v]" by simp
      have "nat (off d + x) < length dbuf1" using d1 lo hi by simp
      moreover have "int (nat (off d + x)) < off d + (x + 1)" using lo by simp
      ultimately have "dbuf2 ! nat (off d + x) = dbuf1 ! nat (off d + x)" using f by blast
      with d1 d2 here v ix show ?thesis by simp
    qed
  qed
qed

lemma convert_row_ok:
  "m (blk d) = Some dbuf \<Longrightarrow> m (blk src) = Some sbuf \<Longrightarrow> 0 \<le> x \<Longrightarrow>
   0 \<le> off d \<Longrightarrow> off d + w \<le> int (length dbuf) \<Longrightarrow>
   0 \<le> off src \<Longrightarrow> off src + w \<le> int (length sbuf) \<Longrightarrow>
     \<exists>m'. convert_row m (Some d) src x w = Inr m'"
proof (induction "nat (w - x)" arbitrary: m x dbuf sbuf)
  case 0
  then show ?case by (simp add: convert_row_done)
next
  case (Suc n)
  have xw: "x < w" using Suc.hyps(2) by linarith
  have ld: "load16 m (ptr_add src x) = Inr (sbuf ! nat (off src + x))"
    using Suc.prems xw by (simp add: load16_def ptr_add_def)
  let ?v = "bswap16 (sbuf ! nat (off src + x))"
  let ?m1 = "m(blk d \<mapsto> dbuf[nat (off d + x) := ?v])"
  have st: "store16 m (ptr_add d x) ?v = Inr ?m1"
    using Suc.prems xw by (simp add: store16_def ptr_add_def)
  have n: "n = nat (w - (x + 1))" using Suc.hyps(2) by linarith
  obtain sbuf1 where s1: "?m1 (blk src) = Some sbuf1" and l1: "length sbuf1 = length sbuf"
    using Suc.prems(1,2) by (cases "blk src = blk d") auto
  have d1: "?m1 (blk d) = Some (dbuf[nat (off d + x) := ?v])" by simp
  have "\<exists>m'. convert_row ?m1 (Some d) src (x + 1) w = Inr m'"
    by (rule Suc.hyps(1) [OF n d1 s1]) (use Suc.prems l1 in auto)
  then show ?case
    by (subst convert_row.simps) (simp add: xw ld st)
qed

lemma convert_row_null:
  "x < w \<Longrightarrow> m (blk src) = Some sbuf \<Longrightarrow> 0 \<le> off src + x \<Longrightarrow> off src + x < int (length sbuf) \<Longrightarrow>
     convert_row m None src x w = Inl NullDeref"
  by (subst convert_row.simps) (simp add: load16_def ptr_add_def)

lemma convert_row_null_fault:
  "x < w \<Longrightarrow> \<exists>f. convert_row m None src x w = Inl f"
  by (subst convert_row.simps) (simp split: sum.splits)

section \<open>The row loop\<close>

lemma emit_simps [simp]:
  "trace (emit e s) = trace s @ [e]" "heap (emit e s) = heap s"
  "dma_buf (emit e s) = dma_buf s" "buf1 (emit e s) = buf1 s" "disp (emit e s) = disp s"
  "next_blk (emit e s) = next_blk s" "lcds (emit e s) = lcds s"
  by (simp_all add: emit_def)

lemma lcd_call_simps [simp]:
  "trace (lcd_call l f e s) = trace s @ [e]" "heap (lcd_call l f e s) = heap s"
  "dma_buf (lcd_call l f e s) = dma_buf s" "buf1 (lcd_call l f e s) = buf1 s"
  "disp (lcd_call l f e s) = disp s" "next_blk (lcd_call l f e s) = next_blk s"
  by (simp_all add: lcd_call_def)

lemma push_rows_done: "\<not> y < h \<Longrightarrow> push_rows drv l s src y w h = Inr s"
  by (simp add: push_rows.simps)

lemma push_rows_step:
  "y < h \<Longrightarrow> push_rows drv l s src y w h = Inr s' \<Longrightarrow>
     \<exists>m1. convert_row (heap s) (dma_buf s) src 0 w = Inr m1 \<and>
       push_rows drv l
         (lcd_call l (drv_pushPixels drv (row_at m1 (dma_buf s) w) w {DRAW_TO_LCD, DRAW_WITH_DMA})
            (push_event l w (row_at m1 (dma_buf s) w)) (s\<lparr>heap := m1\<rparr>))
         (ptr_add src w) (y + 1) w h = Inr s'"
  by (subst (asm) push_rows.simps) (auto simp: push_event_def Let_def split: sum.splits)

text \<open>Whatever the memory looks like, a successful row loop appends one push per row
  and nothing else.\<close>

lemma push_rows_trace:
  "push_rows drv l s src y w h = Inr s' \<Longrightarrow>
     \<exists>rows. trace s' = trace s @ map (push_event l w) rows \<and> length rows = nat (h - y)"
proof (induction "nat (h - y)" arbitrary: s src y)
  case 0
  then have "\<not> y < h" by simp
  with 0 show ?case by (simp add: push_rows_done)
next
  case (Suc n)
  then have yh: "y < h" by linarith
  from push_rows_step [OF yh Suc.prems] obtain m1 where
    rest: "push_rows drv l
         (lcd_call l (drv_pushPixels drv (row_at m1 (dma_buf s) w) w {DRAW_TO_LCD, DRAW_WITH_DMA})
            (push_event l w (row_at m1 (dma_buf s) w)) (s\<lparr>heap := m1\<rparr>))
         (ptr_add src w) (y + 1) w h = Inr s'" by blast
  have n: "n = nat (h - (y + 1))" using Suc.hyps(2) by linarith
  from Suc.hyps(1) [OF n rest] obtain rows where
    t: "trace s' = (trace s @ [push_event l w (row_at m1 (dma_buf s) w)]) @ map (push_event l w) rows"
    and len: "length rows = nat (h - (y + 1))" by auto
  have "trace s' = trace s @ map (push_event l w) (row_at m1 (dma_buf s) w # rows)"
    using t by simp
  moreover have "length (row_at m1 (dma_buf s) w # rows) = nat (h - y)"
    using len yh by simp
  ultimately show ?case by blast
qed

lemma row_frame_refl: "row_frame dma w m m"
  by (auto simp: row_frame_def split: option.splits)

lemma row_frame_trans:
  "row_frame dma w m m1 \<Longrightarrow> row_frame dma w m1 m2 \<Longrightarrow> row_frame dma w m m2"
  by (cases dma) (auto simp: row_frame_def split: option.splits)

lemma convert_row_frame:
  assumes "convert_row m dma src 0 w = Inr m'"
  shows "row_frame dma w m m'"
proof (cases "0 < w")
  case False
  with assms show ?thesis by (simp add: convert_row_done row_frame_refl)
next
  case True
  show ?thesis
  proof (cases dma)
    case None
    with convert_row_null_fault [OF True, of m src] assms show ?thesis by auto
  next
    case (Some d)
    from convert_row_shape [OF assms [unfolded Some] True]
    show ?thesis using Some by (auto simp: row_frame_def)
  qed
qed

text \<open>The frame of the row loop: pointers stay, and the store changes only inside the
  first \<open>w\<close> samples at \<open>dma_buf\<close>.\<close>

lemma push_rows_frame:
  "push_rows drv l s src y w h = Inr s' \<Longrightarrow>
     row_frame (dma_buf s) w (heap s) (heap s') \<and> dma_buf s' = dma_buf s \<and>
     buf1 s' = buf1 s \<and> disp s' = disp s \<and> next_blk s' = next_blk s"
proof (induction "nat (h - y)" arbitrary: s src y)
  case 0
  then have "\<not> y < h" by simp
  with 0 show ?case by (simp add: push_rows_done row_frame_refl)
next
  case (Suc n)
  then have yh: "y < h" by linarith
  from push_rows_step [OF yh Suc.prems] obtain m1 where
    cr: "convert_row (heap s) (dma_buf s) src 0 w = Inr m1" and
    rest: "push_rows drv l
         (lcd_call l (drv_pushPixels drv (row_at m1 (dma_buf s) w) w {DRAW_TO_LCD, DRAW_WITH_DMA})
            (push_event l w (row_at m1 (dma_buf s) w)) (s\<lparr>heap := m1\<rparr>))
         (ptr_add src w) (y + 1) w h = Inr s'" by blast
  have n: "n = nat (h - (y + 1))" using Suc.hyps(2) by linarith
  from Suc.hyps(1) [OF n rest]
  have a: "row_frame (dma_buf s) w m1 (heap s')" and b: "dma_buf s' = dma_buf s"
    and c: "buf1 s' = buf1 s" "disp s' = disp s" "next_blk s' = next_blk s"
    by simp_all
  from row_frame_trans [OF convert_row_frame [OF cr] a] b c show ?case by simp
qed

text \<open>The row handed to the driver after a successful conversion from a disjoint
  source block.\<close>

lemma row_at_converted:
  assumes cr: "convert_row m (Some d) src 0 w = Inr m'" and w: "0 < w"
    and dj: "blk d \<noteq> blk src" and sb: "m (blk src) = Some sbuf"
  shows "row_at m' (Some d) w = map bswap16 (src_row sbuf (off src) w 0)"
proof -
  from convert_row_shape [OF cr w] obtain dbuf dbuf' where
    db: "m (blk d) = Some dbuf" and m': "m' = m(blk d \<mapsto> dbuf')"
    and len: "length dbuf' = length dbuf" and lo: "0 \<le> off d"
    and hi: "off d + w \<le> int (length dbuf)" by auto
  from convert_row_src [OF cr w] sb have slo: "0 \<le> off src"
    and shi: "off src + w \<le> int (length sbuf)" by auto
  have d': "m' (blk d) = Some dbuf'" using m' by simp
  have l1: "length (take (nat w) (drop (nat (off d)) dbuf')) = nat w"
    using len lo hi by simp
  have l2: "length (take (nat w) (drop (nat (off src)) sbuf)) = nat w"
    using slo shi by simp
  have "take (nat w) (drop (nat (off d)) dbuf') = map bswap16 (take (nat w) (drop (nat (off src)) sbuf))"
  proof (rule nth_equalityI)
    show "length (take (nat w) (drop (nat (off d)) dbuf')) =
          length (map bswap16 (take (nat w) (drop (nat (off src)) sbuf)))"
      using l1 l2 by simp
  next
    fix i assume "i < length (take (nat w) (drop (nat (off d)) dbuf'))"
    with l1 have i: "i < nat w" by simp
    then have iw: "int i < w" by linarith
    from convert_row_content [OF cr w _ dj sb d' _ iw]
    have c: "dbuf' ! nat (off d + int i) = bswap16 (sbuf ! nat (off src + int i))" by simp
    have a: "nat (off d + int i) = nat (off d) + i" using lo by linarith
    have b: "nat (off src + int i) = nat (off src) + i" using slo by linarith
    have "take (nat w) (drop (nat (off d)) dbuf') ! i = dbuf' ! (nat (off d) + i)"
      using i len lo hi by simp
    moreover have "map bswap16 (take (nat w) (drop (nat (off src)) sbuf)) ! i
        = bswap16 (sbuf ! (nat (off src) + i))"
      using i slo shi by simp
    ultimately show "take (nat w) (drop (nat (off d)) dbuf') ! i =
          map bswap16 (take (nat w) (drop (nat (off src)) sbuf)) ! i"
      using c a b by simp
  qed
  then show ?thesis by (simp add: row_at_def d' src_row_def)
qed

lemma src_row_shift:
  "0 \<le> ofs \<Longrightarrow> 0 < w \<Longrightarrow> src_row sbuf (ofs + w) w k = src_row sbuf ofs w (Suc k)"
  by (simp add: src_row_def algebra_simps)

lemma push_rows_content:
  "push_rows drv l s src y w h = Inr s' \<Longrightarrow> dma_buf s = Some d \<Longrightarrow> blk d \<noteq> blk src \<Longrightarrow>
   heap s (blk src) = Some sbuf \<Longrightarrow> 0 < w \<Longrightarrow> 0 \<le> off src \<Longrightarrow>
     trace s' = trace s @
       map (\<lambda>k. push_event l w (map bswap16 (src_row sbuf (off src) w k))) [0..<nat (h - y)]"
proof (induction "nat (h - y)" arbitrary: s src y)
  case 0
  then have "\<not> y < h" by simp
  with 0 show ?case by (simp add: push_rows_done)
next
  case (Suc n)
  then have yh: "y < h" by linarith
  let ?s1 = "\<lambda>m1. lcd_call l (drv_pushPixels drv (row_at m1 (dma_buf s) w) w {DRAW_TO_LCD, DRAW_WITH_DMA})
            (push_event l w (row_at m1 (dma_buf s) w)) (s\<lparr>heap := m1\<rparr>)"
  from push_rows_step [OF yh Suc.prems(1)] obtain m1 where
    cr: "convert_row (heap s) (dma_buf s) src 0 w = Inr m1" and
    rest: "push_rows drv l (?s1 m1) (ptr_add src w) (y + 1) w h = Inr s'" by blast
  have n: "n = nat (h - (y + 1))" using Suc.hyps(2) by linarith
  have cr': "convert_row (heap s) (Some d) src 0 w = Inr m1" using cr Suc.prems(2) by simp
  have row: "row_at m1 (dma_buf s) w = map bswap16 (src_row sbuf (off src) w 0)"
    using row_at_converted [OF cr' Suc.prems(5) Suc.prems(3) Suc.prems(4)] Suc.prems(2) by simp
  from convert_row_frame [OF cr'] Suc.prems(3,4)
  have sb1: "m1 (blk src) = Some sbuf" by (auto simp: row_frame_def)
  have dm: "dma_buf (?s1 m1) = Some d" using Suc.prems(2) by simp
  have dj: "blk d \<noteq> blk (ptr_add src w)" using Suc.prems(3) by (simp add: ptr_add_def)
  have hp: "heap (?s1 m1) (blk (ptr_add src w)) = Some sbuf" using sb1 by (simp add: ptr_add_def)
  have o: "0 \<le> off (ptr_add src w)" using Suc.prems(5,6) by (simp add: ptr_add_def)
  from Suc.hyps(1) [OF n rest dm dj hp Suc.prems(5) o]
  have t: "trace s' = (trace s @ [push_event l w (map bswap16 (src_row sbuf (off src) w 0))]) @
       map (\<lambda>k. push_event l w (map bswap16 (src_row sbuf (off src + w) w k))) [0..<n]"
    using row n by (simp add: ptr_add_def)
  have sh: "map (\<lambda>k. push_event l w (map bswap16 (src_row sbuf (off src + w) w k))) [0..<n]
      = map (\<lambda>k. push_event l w (map bswap16 (src_row sbuf (off src) w k))) (map Suc [0..<n])"
    using src_row_shift [OF Suc.prems(6) Suc.prems(5)] by simp
  have up: "[0..<nat (h - y)] = 0 # map Suc [0..<n]"
    using Suc.hyps(2) by (simp add: upt_conv_Cons map_Suc_upt del: upt_Suc)
  show ?case unfolding up using t sh by simp
qed

lemma push_rows_ok:
  "dma_buf s = Some d \<Longrightarrow> heap s (blk d) = Some dbuf \<Longrightarrow> heap s (blk src) = Some sbuf \<Longrightarrow>
   0 \<le> off d \<Longrightarrow> off d + w \<le> int (length dbuf) \<Longrightarrow> 0 < w \<Longrightarrow> 0 \<le> y \<Longrightarrow>
   0 \<le> off src \<Longrightarrow> off src + (h - y) * w \<le> int (length sbuf) \<Longrightarrow>
     \<exists>s'. push_rows drv l s src y w h = Inr s'"
proof (induction "nat (h - y)" arbitrary: s src y dbuf sbuf)
  case 0
  then have "\<not> y < h" by simp
  then show ?case by (simp add: push_rows_done)
next
  case (Suc n)
  then have yh: "y < h" by linarith
  have "w \<le> (h - y) * w" using yh Suc.prems(6) by (simp add: mult_le_cancel_right1 mult.commute)
  then have sw: "off src + w \<le> int (length sbuf)" using Suc.prems(9) by linarith
  from convert_row_ok [OF Suc.prems(2) Suc.prems(3) _ Suc.prems(4) Suc.prems(5) Suc.prems(8) sw, of 0]
  obtain m1 where cr: "convert_row (heap s) (Some d) src 0 w = Inr m1" by auto
  let ?s1 = "lcd_call l (drv_pushPixels drv (row_at m1 (dma_buf s) w) w {DRAW_TO_LCD, DRAW_WITH_DMA})
            (Lcd_pushPixels l (row_at m1 (dma_buf s) w) w {DRAW_TO_LCD, DRAW_WITH_DMA}) (s\<lparr>heap := m1\<rparr>)"
  from convert_row_frame [OF cr] Suc.prems(2,3)
  obtain dbuf1 sbuf1 where d1: "m1 (blk d) = Some dbuf1" and ld: "length dbuf1 = length dbuf"
    and s1: "m1 (blk src) = Some sbuf1" and ls: "length sbuf1 = length sbuf"
    by (cases "blk src = blk d") (auto simp: row_frame_def)
  have n: "n = nat (h - (y + 1))" using Suc.hyps(2) by linarith
  have e: "off src + w + (h - (y + 1)) * w = off src + (h - y) * w" by (simp add: algebra_simps)
  have "\<exists>s'. push_rows drv l ?s1 (ptr_add src w) (y + 1) w h = Inr s'"
  proof (rule Suc.hyps(1) [OF n, where dbuf = dbuf1 and sbuf = sbuf1])
    show "dma_buf ?s1 = Some d" using Suc.prems(1) by simp
    show "heap ?s1 (blk d) = Some dbuf1" using d1 by simp
    show "heap ?s1 (blk (ptr_add src w)) = Some sbuf1" using s1 by (simp add: ptr_add_def)
    show "0 \<le> off d" by fact
    show "off d + w \<le> int (length dbuf1)" using ld Suc.prems(5) by simp
    show "0 < w" by fact
    show "0 \<le> y + 1" using Suc.prems(7) by simp
    show "0 \<le> off (ptr_add src w)" using Suc.prems(6,8) by (simp add: ptr_add_def)
    show "off (ptr_add src w) + (h - (y + 1)) * w \<le> int (length sbuf1)"
      using Suc.prems(9) ls e by (simp add: ptr_add_def)
  qed
  then show ?case
    by (subst push_rows.simps) (simp add: yh cr Suc.prems(1) Let_def)
qed

lemma push_rows_copilot_eq:
  "push_rows_copilot drv s src y w h = push_rows drv Lcd_global s src y w h"
proof (induction "nat (h - y)" arbitrary: s src y)
  case 0
  then show ?case by (simp add: push_rows.simps push_rows_copilot.simps)
next
  case (Suc n)
  then have yh: "y < h" by linarith
  have n: "\<And>y'. y' = y + 1 \<Longrightarrow> n = nat (h - y')" using Suc.hyps(2) by linarith
  show ?case
    by (subst push_rows.simps, subst push_rows_copilot.simps)
       (simp add: yh Let_def Suc.hyps(1) [OF n] split: sum.splits)
qed

lemma my_disp_flush_Inr:
  "my_disp_flush drv s dp a px = Inr s' \<Longrightarrow>
     \<exists>l s2. user_data dp = Some l \<and>
       push_rows drv l
         (lcd_call l (drv_setAddrWindow drv (x1 a) (y1 a) (x2 a - x1 a + 1) (y2 a - y1 a + 1))
            (Lcd_setAddrWindow l (x1 a) (y1 a) (x2 a - x1 a + 1) (y2 a - y1 a + 1)) s)
         px 0 (x2 a - x1 a + 1) (y2 a - y1 a + 1) = Inr s2 \<and>
       s' = emit (Lv_display_flush_ready (disp_id dp)) s2"
  by (auto simp: my_disp_flush_def Let_def split: option.splits sum.splits)

lemma copilot_as_manual:
  "my_disp_flush_copilot drv s dp a px =
   my_disp_flush drv s (dp\<lparr>user_data := Some Lcd_global\<rparr>) a px"
  by (simp add: my_disp_flush_copilot_def my_disp_flush_def Let_def push_rows_copilot_eq
        split: sum.splits)

lemma src_row_nat:
  "0 \<le> ofs \<Longrightarrow> 0 \<le> w \<Longrightarrow> src_row sbuf ofs w k = take (nat w) (drop (nat ofs + k * nat w) sbuf)"
  by (simp add: src_row_def nat_add_distrib nat_mult_distrib)

lemma concat_rows:
  "concat (map (\<lambda>k. take w (drop (ofs + k * w) xs)) [0..<h]) = take (h * w) (drop ofs xs)"
proof (induction h)
  case 0
  show ?case by simp
next
  case (Suc h)
  have "take (Suc h * w) (drop ofs xs) = take (h * w + w) (drop ofs xs)"
    by (simp add: add.commute)
  also have "\<dots> = take (h * w) (drop ofs xs) @ take w (drop (h * w) (drop ofs xs))"
    by (rule take_add)
  finally show ?case using Suc by (simp add: add.commute)
qed

lemma src_rows_cover:
  assumes "0 \<le> ofs" "0 \<le> w" "0 \<le> h"
  shows "concat (map (src_row sbuf ofs w) [0..<nat h]) = take (nat (w * h)) (drop (nat ofs) sbuf)"
proof -
  have "src_row sbuf ofs w = (\<lambda>k. take (nat w) (drop (nat ofs + k * nat w) sbuf))"
    using assms by (intro ext) (simp add: src_row_nat)
  then have "concat (map (src_row sbuf ofs w) [0..<nat h])
      = take (nat h * nat w) (drop (nat ofs) sbuf)"
    by (simp only: concat_rows)
  then show ?thesis
    using assms by (simp add: nat_mult_distrib mult.commute)
qed

text \<open>The whole callback, when the memory it is given is large enough.\<close>

lemma my_disp_flush_ok:
  assumes ud: "user_data dp = Some l"
    and w: "x1 a \<le> x2 a" and h: "y1 a \<le> y2 a"
    and dma: "dma_buf s = Some d" and db: "heap s (blk d) = Some dbuf"
    and dlo: "0 \<le> off d" and dhi: "off d + (x2 a - x1 a + 1) \<le> int (length dbuf)"
    and sb: "heap s (blk px) = Some sbuf"
    and slo: "0 \<le> off px"
    and shi: "off px + (x2 a - x1 a + 1) * (y2 a - y1 a + 1) \<le> int (length sbuf)"
  shows "\<exists>s'. my_disp_flush drv s dp a px = Inr s'"
proof -
  let ?w = "x2 a - x1 a + 1" and ?h = "y2 a - y1 a + 1"
  let ?s1 = "lcd_call l (drv_setAddrWindow drv (x1 a) (y1 a) ?w ?h)
            (Lcd_setAddrWindow l (x1 a) (y1 a) ?w ?h) s"
  have "\<exists>s2. push_rows drv l ?s1 px 0 ?w ?h = Inr s2"
  proof (rule push_rows_ok [where d = d and dbuf = dbuf and sbuf = sbuf])
    show "dma_buf ?s1 = Some d" using dma by simp
    show "heap ?s1 (blk d) = Some dbuf" using db by simp
    show "heap ?s1 (blk px) = Some sbuf" using sb by simp
    show "0 \<le> off d" by fact
    show "off d + ?w \<le> int (length dbuf)" by fact
    show "0 < ?w" using w by simp
    show "(0::int) \<le> 0" by simp
    show "0 \<le> off px" by fact
    show "off px + (?h - 0) * ?w \<le> int (length sbuf)" using shi by (simp add: mult.commute)
  qed
  then show ?thesis using ud by (auto simp: my_disp_flush_def Let_def)
qed

lemma my_disp_flush_trace:
  assumes r: "my_disp_flush drv s dp a px = Inr s'"
    and w: "x1 a \<le> x2 a"
    and dma: "dma_buf s = Some d" and dj: "blk d \<noteq> blk px"
    and sb: "heap s (blk px) = Some sbuf"
  shows "\<exists>l. user_data dp = Some l \<and> trace s' = trace s @
      Lcd_setAddrWindow l (x1 a) (y1 a) (x2 a - x1 a + 1) (y2 a - y1 a + 1) #
      map (\<lambda>k. push_event l (x2 a - x1 a + 1)
                 (map bswap16 (src_row sbuf (off px) (x2 a - x1 a + 1) k)))
          [0..<nat (y2 a - y1 a + 1)] @
      [Lv_display_flush_ready (disp_id dp)]"
proof -
  let ?w = "x2 a - x1 a + 1" and ?h = "y2 a - y1 a + 1"
  from my_disp_flush_Inr [OF r] obtain l s2 where ud: "user_data dp = Some l"
    and pr: "push_rows drv l (lcd_call l (drv_setAddrWindow drv (x1 a) (y1 a) ?w ?h)
            (Lcd_setAddrWindow l (x1 a) (y1 a) ?w ?h) s) px 0 ?w ?h = Inr s2"
    and s': "s' = emit (Lv_display_flush_ready (disp_id dp)) s2" by blast
  have w0: "0 < ?w" using w by simp
  have t: "trace s2 = (trace s @ [Lcd_setAddrWindow l (x1 a) (y1 a) ?w ?h]) @
      map (\<lambda>k. push_event l ?w (map bswap16 (src_row sbuf (off px) ?w k))) [0..<nat ?h]"
  proof (cases "0 < ?h")
    case False
    then have "push_rows drv l (lcd_call l (drv_setAddrWindow drv (x1 a) (y1 a) ?w ?h)
            (Lcd_setAddrWindow l (x1 a) (y1 a) ?w ?h) s) px 0 ?w ?h
        = Inr (lcd_call l (drv_setAddrWindow drv (x1 a) (y1 a) ?w ?h)
            (Lcd_setAddrWindow l (x1 a) (y1 a) ?w ?h) s)"
      by (rule push_rows_done)
    with pr have "s2 = lcd_call l (drv_setAddrWindow drv (x1 a) (y1 a) ?w ?h)
            (Lcd_setAddrWindow l (x1 a) (y1 a) ?w ?h) s" by simp
    with False show ?thesis by simp
  next
    case True
    from push_rows_step [OF True pr] dma obtain m1 where
      "convert_row (heap s) (Some d) px 0 ?w = Inr m1" by auto
    from convert_row_src [OF this w0] have slo: "0 \<le> off px" by auto
    show ?thesis
      using push_rows_content [OF pr _ dj _ w0 slo, of sbuf] dma sb by simp
  qed
  with ud s' show ?thesis by simp
qed

lemma pushed_rows_append: "pushed_rows (es @ fs) = pushed_rows es @ pushed_rows fs"
  by (induction es rule: pushed_rows.induct) simp_all

lemma pushed_rows_push_events: "pushed_rows (map (\<lambda>k. push_event l w (f k)) ks) = map f ks"
  by (induction ks) (simp_all add: push_event_def)

lemma tiny_flush_ok:
  "\<exists>s'. my_disp_flush panel_480 tiny tiny_disp tiny_area (Ptr 1 0) = Inr s'"
  by (rule my_disp_flush_ok [where l = Lcd_global and d = "Ptr 0 0" and dbuf = "[0, 0]"
        and sbuf = "[0x00FF, 0xFF00, 0x1234, 0xFFFF]"])
     (simp_all add: tiny_def tiny_disp_def tiny_area_def boot_def)

lemma tiny_flush_copilot_ok:
  "\<exists>s'. my_disp_flush_copilot panel_480 tiny tiny_disp tiny_area (Ptr 1 0) = Inr s'"
  unfolding copilot_as_manual
  by (rule my_disp_flush_ok [where l = Lcd_global and d = "Ptr 0 0" and dbuf = "[0, 0]"
        and sbuf = "[0x00FF, 0xFF00, 0x1234, 0xFFFF]"])
     (simp_all add: tiny_def tiny_disp_def tiny_area_def boot_def)

text \<open>
  C1. Every sample handed to the driver is the byte swap of the source sample at the same
  place: when either callback returns, and the row buffer and the source are different
  objects, the rows it pushed are the rows of the source with \<open>swap16\<close> applied to every
  sample. \<open>swap16\<close> exchanges the high and the low byte, and the builtin the callbacks
  use maps 0x0000, 0xFFFF, 0x00FF, 0xFF00 to 0x0000, 0xFFFF, 0xFF00, 0x00FF.
\<close>

theorem C1_byte_swap:
  assumes "dma_buf s = Some d" and "blk d \<noteq> blk px" and "heap s (blk px) = Some sbuf"
    and "x1 a \<le> x2 a"
  shows "(my_disp_flush drv s dp a px = Inr s' \<longrightarrow>
            pushed_rows (drop (length (trace s)) (trace s')) =
            map (\<lambda>k. map swap16 (src_row sbuf (off px) (x2 a - x1 a + 1) k))
                [0..<nat (y2 a - y1 a + 1)]) \<and>
         (my_disp_flush_copilot drv s dp a px = Inr s' \<longrightarrow>
            pushed_rows (drop (length (trace s)) (trace s')) =
            map (\<lambda>k. map swap16 (src_row sbuf (off px) (x2 a - x1 a + 1) k))
                [0..<nat (y2 a - y1 a + 1)]) \<and>
         (\<forall>v. bswap16 v = swap16 v \<and> hi_byte (swap16 v) = lo_byte v \<and>
              lo_byte (swap16 v) = hi_byte v) \<and>
         bswap16 0x0000 = 0x0000 \<and> bswap16 0xFFFF = 0xFFFF \<and>
         bswap16 0x00FF = 0xFF00 \<and> bswap16 0xFF00 = 0x00FF"
proof -
  have sw: "bswap16 = swap16" by (rule ext) (rule bswap16_swap16)
  have *: "pushed_rows (drop (length (trace s)) (trace s')) =
            map (\<lambda>k. map swap16 (src_row sbuf (off px) (x2 a - x1 a + 1) k))
                [0..<nat (y2 a - y1 a + 1)]"
    if "my_disp_flush drv s dp' a px = Inr s'" for dp'
  proof -
    from my_disp_flush_trace [OF that assms(4) assms(1) assms(2) assms(3)]
    obtain l where "trace s' = trace s @
      Lcd_setAddrWindow l (x1 a) (y1 a) (x2 a - x1 a + 1) (y2 a - y1 a + 1) #
      map (\<lambda>k. push_event l (x2 a - x1 a + 1)
                 (map bswap16 (src_row sbuf (off px) (x2 a - x1 a + 1) k)))
          [0..<nat (y2 a - y1 a + 1)] @
      [Lv_display_flush_ready (disp_id dp')]" by blast
    then show ?thesis
      by (simp add: pushed_rows_append pushed_rows_push_events sw)
  qed
  have b: "bswap16 0x0000 = 0x0000 \<and> bswap16 0xFFFF = 0xFFFF \<and>
         bswap16 0x00FF = 0xFF00 \<and> bswap16 0xFF00 = 0x00FF"
    by (simp add: bswap16_def)
  show ?thesis
    using * [of dp] * [of "dp\<lparr>user_data := Some Lcd_global\<rparr>"] b
    by (simp add: copilot_as_manual bswap16_swap16 hi_byte_swap16 lo_byte_swap16)
qed

theorem C1_byte_swap_witness:
  "(\<exists>s'. my_disp_flush panel_480 tiny tiny_disp tiny_area (Ptr 1 0) = Inr s' \<and>
        pushed_rows (drop (length (trace tiny)) (trace s')) =
          [[0xFF00, 0x00FF], [0x3412, 0xFFFF]]) \<and>
   (\<exists>s'. my_disp_flush_copilot panel_480 tiny tiny_disp tiny_area (Ptr 1 0) = Inr s' \<and>
        pushed_rows (drop (length (trace tiny)) (trace s')) =
          [[0xFF00, 0x00FF], [0x3412, 0xFFFF]])"
proof -
  let ?src = "[0x00FF, 0xFF00, 0x1234, 0xFFFF] :: u16 list"
  have h: "dma_buf tiny = Some (Ptr 0 0)" "blk (Ptr 0 0) \<noteq> blk (Ptr 1 0)"
    "heap tiny (blk (Ptr 1 0)) = Some ?src" "x1 tiny_area \<le> x2 tiny_area"
    by (simp_all add: tiny_def tiny_area_def)
  have rows: "map (\<lambda>k. map swap16 (src_row ?src (off (Ptr 1 0))
                   (x2 tiny_area - x1 tiny_area + 1) k))
                [0..<nat (y2 tiny_area - y1 tiny_area + 1)] = [[0xFF00, 0x00FF], [0x3412, 0xFFFF]]"
    by (simp add: tiny_area_def src_row_def bswap16_swap16 [symmetric] bswap16_def
          upt_conv_Cons)
  from tiny_flush_ok obtain s1 where
    r1: "my_disp_flush panel_480 tiny tiny_disp tiny_area (Ptr 1 0) = Inr s1" by blast
  from tiny_flush_copilot_ok obtain s2 where
    r2: "my_disp_flush_copilot panel_480 tiny tiny_disp tiny_area (Ptr 1 0) = Inr s2" by blast
  from C1_byte_swap [OF h, of panel_480 tiny_disp s1] r1 rows
  have 1: "pushed_rows (drop (length (trace tiny)) (trace s1)) = [[0xFF00, 0x00FF], [0x3412, 0xFFFF]]"
    by simp
  from C1_byte_swap [OF h, of panel_480 tiny_disp s2] r2 rows
  have 2: "pushed_rows (drop (length (trace tiny)) (trace s2)) = [[0xFF00, 0x00FF], [0x3412, 0xFFFF]]"
    by simp
  from r1 r2 1 2 show ?thesis by blast
qed

lemma length_src_row:
  assumes "0 \<le> ofs" "0 \<le> w" "int k < h" "ofs + w * h \<le> int (length sbuf)"
  shows "length (src_row sbuf ofs w k) = nat w"
proof -
  have "(int k + 1) * w \<le> h * w" using assms by (intro mult_right_mono) auto
  then have "ofs + int k * w + w \<le> int (length sbuf)"
    using assms(4) by (simp add: algebra_simps)
  moreover have "0 \<le> ofs + int k * w" using assms by simp
  ultimately show ?thesis by (simp add: src_row_def)
qed

text \<open>
  C2. For a dirty rectangle with inclusive bounds, of width \<open>w = x2 - x1 + 1\<close> and height
  \<open>h = y2 - y1 + 1\<close>, and memory large enough (a row buffer of at least \<open>w\<close> samples, a
  source of at least \<open>w * h\<close> samples, the two being different objects), each callback
  returns, and what it called is: the address window set to the rectangle, then exactly
  \<open>h\<close> pushes, and the flush-ready signal. Push \<open>k\<close> hands over the \<open>w\<close> converted
  samples of source row \<open>k\<close>, which starts \<open>k * w\<close> samples into the source; the rows
  together are the first \<open>w * h\<close> samples of the source, each once and in order.
\<close>

theorem C2_row_coverage:
  assumes "x1 a \<le> x2 a" and "y1 a \<le> y2 a"
    and "dma_buf s = Some d" and "heap s (blk d) = Some dbuf"
    and "0 \<le> off d" and "off d + (x2 a - x1 a + 1) \<le> int (length dbuf)"
    and "heap s (blk px) = Some sbuf" and "0 \<le> off px"
    and "off px + (x2 a - x1 a + 1) * (y2 a - y1 a + 1) \<le> int (length sbuf)"
    and "blk d \<noteq> blk px"
    and "w = x2 a - x1 a + 1" and "h = y2 a - y1 a + 1"
  shows "(\<forall>l. user_data dp = Some l \<longrightarrow>
           (\<exists>s'. my_disp_flush drv s dp a px = Inr s' \<and>
              trace s' = trace s @ Lcd_setAddrWindow l (x1 a) (y1 a) w h #
                map (\<lambda>k. push_event l w (map bswap16 (src_row sbuf (off px) w k))) [0..<nat h] @
                [Lv_display_flush_ready (disp_id dp)])) \<and>
         (\<exists>s'. my_disp_flush_copilot drv s dp a px = Inr s' \<and>
              trace s' = trace s @ Lcd_setAddrWindow Lcd_global (x1 a) (y1 a) w h #
                map (\<lambda>k. push_event Lcd_global w (map bswap16 (src_row sbuf (off px) w k)))
                  [0..<nat h] @
                [Lv_display_flush_ready (disp_id dp)]) \<and>
         length [0..<nat h] = nat h \<and>
         (\<forall>k < nat h. length (src_row sbuf (off px) w k) = nat w) \<and>
         concat (map (src_row sbuf (off px) w) [0..<nat h]) =
           take (nat (w * h)) (drop (nat (off px)) sbuf)"
proof -
  have *: "\<exists>s'. my_disp_flush drv s dp' a px = Inr s' \<and>
              trace s' = trace s @ Lcd_setAddrWindow l (x1 a) (y1 a) w h #
                map (\<lambda>k. push_event l w (map bswap16 (src_row sbuf (off px) w k))) [0..<nat h] @
                [Lv_display_flush_ready (disp_id dp')]"
    if ud: "user_data dp' = Some l" for dp' l
  proof -
    from my_disp_flush_ok [OF ud assms(1) assms(2) assms(3) assms(4) assms(5) assms(6)
        assms(7) assms(8) assms(9)]
    obtain s' where r: "my_disp_flush drv s dp' a px = Inr s'" by blast
    from my_disp_flush_trace [OF r assms(1) assms(3) assms(10) assms(7)] ud assms(11,12) r
    show ?thesis by auto
  qed
  have c: "\<exists>s'. my_disp_flush_copilot drv s dp a px = Inr s' \<and>
              trace s' = trace s @ Lcd_setAddrWindow Lcd_global (x1 a) (y1 a) w h #
                map (\<lambda>k. push_event Lcd_global w (map bswap16 (src_row sbuf (off px) w k)))
                  [0..<nat h] @
                [Lv_display_flush_ready (disp_id dp)]"
    using * [of "dp\<lparr>user_data := Some Lcd_global\<rparr>" Lcd_global]
    by (simp add: copilot_as_manual)
  have w0: "0 \<le> w" and h0: "0 \<le> h" using assms by simp_all
  have len: "\<forall>k < nat h. length (src_row sbuf (off px) w k) = nat w"
  proof (intro allI impI)
    fix k assume "k < nat h"
    then have "int k < h" by linarith
    from length_src_row [OF assms(8) w0 this] assms(9,11,12)
    show "length (src_row sbuf (off px) w k) = nat w" by simp
  qed
  from * c len src_rows_cover [OF assms(8) w0 h0, of sbuf] show ?thesis by simp
qed


theorem C2_row_coverage_witness:
  "\<exists>s'. my_disp_flush panel_480 tiny tiny_disp tiny_area (Ptr 1 0) = Inr s' \<and>
     trace s' = [Lcd_setAddrWindow Lcd_global 0 0 2 2,
                 Lcd_pushPixels Lcd_global [0xFF00, 0x00FF] 2 {DRAW_TO_LCD, DRAW_WITH_DMA},
                 Lcd_pushPixels Lcd_global [0x3412, 0xFFFF] 2 {DRAW_TO_LCD, DRAW_WITH_DMA},
                 Lv_display_flush_ready 0]"
proof -
  let ?src = "[0x00FF, 0xFF00, 0x1234, 0xFFFF] :: u16 list"
  have h1: "x1 tiny_area \<le> x2 tiny_area" and h2: "y1 tiny_area \<le> y2 tiny_area"
    by (simp_all add: tiny_area_def)
  have h3: "dma_buf tiny = Some (Ptr 0 0)" and h4: "heap tiny (blk (Ptr 0 0)) = Some [0, 0]"
    and h7: "heap tiny (blk (Ptr 1 0)) = Some ?src"
    by (simp_all add: tiny_def)
  have h5: "0 \<le> off (Ptr 0 0)" and h8: "0 \<le> off (Ptr 1 0)"
    and h10: "blk (Ptr 0 0) \<noteq> blk (Ptr 1 0)" by simp_all
  have h6: "off (Ptr 0 0) + (x2 tiny_area - x1 tiny_area + 1) \<le> int (length [0::u16, 0])"
    by (simp add: tiny_area_def)
  have h9: "off (Ptr 1 0) + (x2 tiny_area - x1 tiny_area + 1) * (y2 tiny_area - y1 tiny_area + 1)
      \<le> int (length ?src)"
    by (simp add: tiny_area_def)
  have h11: "(2::int) = x2 tiny_area - x1 tiny_area + 1"
    and h12: "(2::int) = y2 tiny_area - y1 tiny_area + 1"
    by (simp_all add: tiny_area_def)
  have ud: "user_data tiny_disp = Some Lcd_global" by (simp add: tiny_disp_def)
  from C2_row_coverage [OF h1 h2 h3 h4 h5 h6 h7 h8 h9 h10 h11 h12, of tiny_disp panel_480] ud
  obtain s' where r: "my_disp_flush panel_480 tiny tiny_disp tiny_area (Ptr 1 0) = Inr s'"
    and t: "trace s' = trace tiny @ Lcd_setAddrWindow Lcd_global (x1 tiny_area) (y1 tiny_area) 2 2 #
        map (\<lambda>k. push_event Lcd_global 2 (map bswap16 (src_row ?src (off (Ptr 1 0)) 2 k)))
          [0..<nat 2] @ [Lv_display_flush_ready (disp_id tiny_disp)]"
    by blast
  have u: "[0..<nat 2] = [0, Suc 0]" by (simp add: upt_conv_Cons)
  have r0: "map bswap16 (src_row ?src (off (Ptr 1 0)) 2 0) = [0xFF00, 0x00FF]"
    by (simp add: src_row_def bswap16_def)
  have r1: "map bswap16 (src_row ?src (off (Ptr 1 0)) 2 (Suc 0)) = [0x3412, 0xFFFF]"
    by (simp add: src_row_def bswap16_def)
  have "trace s' = [Lcd_setAddrWindow Lcd_global 0 0 2 2,
                 Lcd_pushPixels Lcd_global [0xFF00, 0x00FF] 2 {DRAW_TO_LCD, DRAW_WITH_DMA},
                 Lcd_pushPixels Lcd_global [0x3412, 0xFFFF] 2 {DRAW_TO_LCD, DRAW_WITH_DMA},
                 Lv_display_flush_ready 0]"
    unfolding t u list.map r0 r1
    by (simp add: push_event_def tiny_def tiny_area_def tiny_disp_def boot_def)
  with r show ?thesis by blast
qed

lemma is_driver_call_push [simp]: "is_driver_call (push_event l w px)"
  by (simp add: push_event_def)

lemma not_ready_push [simp]: "\<not> is_flush_ready (push_event l w px)"
  by (simp add: push_event_def)

lemma my_disp_flush_calls:
  assumes r: "my_disp_flush drv s dp a px = Inr s'"
  shows "\<exists>l rows. user_data dp = Some l \<and> length rows = nat (y2 a - y1 a + 1) \<and>
     trace s' = trace s @
       Lcd_setAddrWindow l (x1 a) (y1 a) (x2 a - x1 a + 1) (y2 a - y1 a + 1) #
       map (push_event l (x2 a - x1 a + 1)) rows @ [Lv_display_flush_ready (disp_id dp)]"
proof -
  let ?w = "x2 a - x1 a + 1" and ?h = "y2 a - y1 a + 1"
  from my_disp_flush_Inr [OF r] obtain l s2 where ud: "user_data dp = Some l"
    and pr: "push_rows drv l (lcd_call l (drv_setAddrWindow drv (x1 a) (y1 a) ?w ?h)
            (Lcd_setAddrWindow l (x1 a) (y1 a) ?w ?h) s) px 0 ?w ?h = Inr s2"
    and s': "s' = emit (Lv_display_flush_ready (disp_id dp)) s2" by blast
  from push_rows_trace [OF pr] obtain rows where
    "trace s2 = (trace s @ [Lcd_setAddrWindow l (x1 a) (y1 a) ?w ?h]) @ map (push_event l ?w) rows"
    and "length rows = nat ?h" by auto
  with ud s' show ?thesis by auto
qed

lemma push_rows_any_driver:
  "same_view s t \<Longrightarrow>
     rel_sum (=) same_view (push_rows drv l s src y w h) (push_rows drv' l t src y w h)"
proof (induction "nat (h - y)" arbitrary: s t src y)
  case 0
  then have "\<not> y < h" by simp
  with 0 show ?case by (simp add: push_rows_done)
next
  case (Suc n)
  then have yh: "y < h" by linarith
  have n: "n = nat (h - (y + 1))" using Suc.hyps(2) by linarith
  have e: "heap t = heap s" "dma_buf t = dma_buf s" "trace t = trace s"
    using Suc.prems by (simp_all add: same_view_def)
  show ?case
  proof (cases "convert_row (heap s) (dma_buf s) src 0 w")
    case (Inl f)
    then show ?thesis
      by (subst push_rows.simps, subst (2) push_rows.simps) (simp add: yh e)
  next
    case (Inr m1)
    let ?px = "row_at m1 (dma_buf s) w"
    let ?fl = "{DRAW_TO_LCD, DRAW_WITH_DMA}"
    let ?s1 = "lcd_call l (drv_pushPixels drv ?px w ?fl) (Lcd_pushPixels l ?px w ?fl) (s\<lparr>heap := m1\<rparr>)"
    let ?t1 = "lcd_call l (drv_pushPixels drv' ?px w ?fl) (Lcd_pushPixels l ?px w ?fl) (t\<lparr>heap := m1\<rparr>)"
    have v: "same_view ?s1 ?t1" using e by (simp add: same_view_def)
    have a: "push_rows drv l s src y w h = push_rows drv l ?s1 (ptr_add src w) (y + 1) w h"
      by (subst push_rows.simps) (simp add: yh Inr Let_def)
    have b: "push_rows drv' l t src y w h = push_rows drv' l ?t1 (ptr_add src w) (y + 1) w h"
      by (subst push_rows.simps) (simp add: yh Inr e Let_def)
    from Suc.hyps(1) [OF n v] show ?thesis unfolding a b .
  qed
qed

lemma my_disp_flush_any_driver:
  assumes "same_view s t"
  shows "rel_sum (=) same_view (my_disp_flush drv s dp a px) (my_disp_flush drv' t dp a px)"
proof (cases "user_data dp")
  case None
  then show ?thesis by (simp add: my_disp_flush_def)
next
  case (Some l)
  let ?w = "x2 a - x1 a + 1" and ?h = "y2 a - y1 a + 1"
  let ?s1 = "lcd_call l (drv_setAddrWindow drv (x1 a) (y1 a) ?w ?h)
            (Lcd_setAddrWindow l (x1 a) (y1 a) ?w ?h) s"
  let ?t1 = "lcd_call l (drv_setAddrWindow drv' (x1 a) (y1 a) ?w ?h)
            (Lcd_setAddrWindow l (x1 a) (y1 a) ?w ?h) t"
  have "same_view ?s1 ?t1" using assms by (simp add: same_view_def)
  from push_rows_any_driver [OF this, of drv l px 0 ?w ?h drv']
  show ?thesis
    by (cases "push_rows drv l ?s1 px 0 ?w ?h"; cases "push_rows drv' l ?t1 px 0 ?w ?h")
       (simp_all add: my_disp_flush_def Some Let_def same_view_def)
qed

text \<open>
  C3. Whenever a callback returns, it has signalled flush-ready exactly once, as the last
  thing it did, after the driver calls and nothing else. This holds for every driver
  \<open>drv\<close>, that is, whatever the pushes did inside the driver, and for every rectangle,
  also an empty one; the callbacks have no other way to answer the engine. (A callback
  that does not return has made an access through a null pointer or outside an object.)
  Nor does the driver decide whether and how a callback returns: with another driver
  \<open>drv'\<close>, from a state with the same memory, \<^verbatim>\<open>dma_buf\<close> and trace, the callback
  fails alike or returns with the same memory and the same trace.
\<close>

theorem C3_flush_ready_once:
  "(my_disp_flush drv s dp a px = Inr s' \<longrightarrow>
      (\<exists>calls. trace s' = trace s @ calls @ [Lv_display_flush_ready (disp_id dp)] \<and>
         (\<forall>e \<in> set calls. is_driver_call e)) \<and>
      length (filter is_flush_ready (drop (length (trace s)) (trace s'))) = 1) \<and>
   (my_disp_flush_copilot drv s dp a px = Inr s' \<longrightarrow>
      (\<exists>calls. trace s' = trace s @ calls @ [Lv_display_flush_ready (disp_id dp)] \<and>
         (\<forall>e \<in> set calls. is_driver_call e)) \<and>
      length (filter is_flush_ready (drop (length (trace s)) (trace s'))) = 1) \<and>
   (same_view s t \<longrightarrow>
      rel_sum (=) same_view (my_disp_flush drv s dp a px) (my_disp_flush drv' t dp a px) \<and>
      rel_sum (=) same_view (my_disp_flush_copilot drv s dp a px)
        (my_disp_flush_copilot drv' t dp a px))"
proof -
  have *: "(\<exists>calls. trace s' = trace s @ calls @ [Lv_display_flush_ready (disp_id dp')] \<and>
         (\<forall>e \<in> set calls. is_driver_call e)) \<and>
      length (filter is_flush_ready (drop (length (trace s)) (trace s'))) = 1"
    if "my_disp_flush drv s dp' a px = Inr s'" for dp'
  proof -
    from my_disp_flush_calls [OF that] obtain l rows where
      t: "trace s' = trace s @
       Lcd_setAddrWindow l (x1 a) (y1 a) (x2 a - x1 a + 1) (y2 a - y1 a + 1) #
       map (push_event l (x2 a - x1 a + 1)) rows @ [Lv_display_flush_ready (disp_id dp')]"
      by blast
    let ?calls = "Lcd_setAddrWindow l (x1 a) (y1 a) (x2 a - x1 a + 1) (y2 a - y1 a + 1) #
       map (push_event l (x2 a - x1 a + 1)) rows"
    have a: "trace s' = trace s @ ?calls @ [Lv_display_flush_ready (disp_id dp')]"
      using t by simp
    have b: "\<forall>e \<in> set ?calls. is_driver_call e" by auto
    have c: "filter is_flush_ready (map (push_event l (x2 a - x1 a + 1)) rows) = []"
      by (induction rows) simp_all
    have "length (filter is_flush_ready (drop (length (trace s)) (trace s'))) = 1"
      unfolding t using c by simp
    with a b show ?thesis by blast
  qed
  have v: "rel_sum (=) same_view (my_disp_flush drv s dp a px) (my_disp_flush drv' t dp a px) \<and>
      rel_sum (=) same_view (my_disp_flush_copilot drv s dp a px)
        (my_disp_flush_copilot drv' t dp a px)"
    if "same_view s t"
    using my_disp_flush_any_driver [OF that, of drv dp a px drv']
      my_disp_flush_any_driver [OF that, of drv "dp\<lparr>user_data := Some Lcd_global\<rparr>" a px drv']
    by (simp add: copilot_as_manual)
  from * [of dp] * [of "dp\<lparr>user_data := Some Lcd_global\<rparr>"] v
  show ?thesis by (simp add: copilot_as_manual)
qed

theorem C3_flush_ready_once_witness:
  "(\<exists>s'. my_disp_flush panel_480 tiny tiny_disp tiny_area (Ptr 1 0) = Inr s' \<and>
        length (filter is_flush_ready (drop (length (trace tiny)) (trace s'))) = 1) \<and>
   (\<exists>s'. my_disp_flush_copilot panel_480 tiny tiny_disp tiny_area (Ptr 1 0) = Inr s' \<and>
        length (filter is_flush_ready (drop (length (trace tiny)) (trace s'))) = 1) \<and>
   same_view tiny tiny \<and>
   rel_sum (=) same_view (my_disp_flush panel_480 tiny tiny_disp tiny_area (Ptr 1 0))
     (my_disp_flush (panel_480\<lparr>drv_width := (\<lambda>d. 320)\<rparr>) tiny tiny_disp tiny_area (Ptr 1 0))"
proof -
  from tiny_flush_ok obtain s1 where
    r1: "my_disp_flush panel_480 tiny tiny_disp tiny_area (Ptr 1 0) = Inr s1" by blast
  from tiny_flush_copilot_ok obtain s2 where
    r2: "my_disp_flush_copilot panel_480 tiny tiny_disp tiny_area (Ptr 1 0) = Inr s2" by blast
  have v: "same_view tiny tiny" by (simp add: same_view_def)
  from C3_flush_ready_once [of panel_480 tiny tiny_disp tiny_area "Ptr 1 0" s1 tiny
      "panel_480\<lparr>drv_width := (\<lambda>d. 320)\<rparr>"] r1 v
  have 1: "length (filter is_flush_ready (drop (length (trace tiny)) (trace s1))) = 1"
    and 3: "rel_sum (=) same_view (my_disp_flush panel_480 tiny tiny_disp tiny_area (Ptr 1 0))
     (my_disp_flush (panel_480\<lparr>drv_width := (\<lambda>d. 320)\<rparr>) tiny tiny_disp tiny_area (Ptr 1 0))"
    by blast+
  from C3_flush_ready_once [of panel_480 tiny tiny_disp tiny_area "Ptr 1 0" s2 tiny panel_480] r2
  have 2: "length (filter is_flush_ready (drop (length (trace tiny)) (trace s2))) = 1"
    by blast
  from r1 r2 1 2 3 v show ?thesis by blast
qed

text \<open>
  C9. When the display's user data is the file-scope driver object, the two callbacks
  are the same function of the machine state: started in the same state on the same
  rectangle and source they end in the same state, with the same trace of
  \<^verbatim>\<open>setAddrWindow\<close>, \<^verbatim>\<open>pushPixels\<close> and flush-ready calls, or fail in the same way.
\<close>

theorem C9_variants_agree:
  assumes "user_data dp = Some Lcd_global"
  shows "my_disp_flush_copilot drv s dp a px = my_disp_flush drv s dp a px"
proof -
  have "dp\<lparr>user_data := Some Lcd_global\<rparr> = dp" using assms by simp
  then show ?thesis by (simp add: copilot_as_manual)
qed

theorem C9_variants_agree_witness:
  "user_data tiny_disp = Some Lcd_global \<and>
   my_disp_flush_copilot panel_480 tiny tiny_disp tiny_area (Ptr 1 0) =
   my_disp_flush panel_480 tiny tiny_disp tiny_area (Ptr 1 0)"
proof -
  have ud: "user_data tiny_disp = Some Lcd_global" by (simp add: tiny_disp_def)
  from C9_variants_agree [OF ud, of panel_480 tiny tiny_area "Ptr 1 0"] ud
  show ?thesis by simp
qed

lemma my_disp_flush_frame:
  assumes r: "my_disp_flush drv s dp a px = Inr s'"
  shows "row_frame (dma_buf s) (x2 a - x1 a + 1) (heap s) (heap s') \<and>
         dma_buf s' = dma_buf s \<and> buf1 s' = buf1 s \<and> disp s' = disp s \<and>
         next_blk s' = next_blk s"
proof -
  let ?w = "x2 a - x1 a + 1" and ?h = "y2 a - y1 a + 1"
  from my_disp_flush_Inr [OF r] obtain l s2 where
    pr: "push_rows drv l (lcd_call l (drv_setAddrWindow drv (x1 a) (y1 a) ?w ?h)
            (Lcd_setAddrWindow l (x1 a) (y1 a) ?w ?h) s) px 0 ?w ?h = Inr s2"
    and s': "s' = emit (Lv_display_flush_ready (disp_id dp)) s2" by blast
  from push_rows_frame [OF pr] s' show ?thesis by simp
qed

text \<open>
  C10. A callback that returns has changed nothing in memory but the first \<open>w\<close> samples
  at \<^verbatim>\<open>dma_buf\<close>: every other block, and the rest of that block, holds what it held before,
  and the pointers \<^verbatim>\<open>dma_buf\<close> and \<^verbatim>\<open>buf1\<close> are unchanged. In particular the source, being
  another object than the row buffer, is identical before and after.
\<close>

theorem C10_source_only_read:
  "(my_disp_flush drv s dp a px = Inr s' \<longrightarrow>
      row_frame (dma_buf s) (x2 a - x1 a + 1) (heap s) (heap s') \<and>
      dma_buf s' = dma_buf s \<and> buf1 s' = buf1 s \<and>
      (\<forall>d. dma_buf s = Some d \<longrightarrow> blk d \<noteq> blk px \<longrightarrow> heap s' (blk px) = heap s (blk px))) \<and>
   (my_disp_flush_copilot drv s dp a px = Inr s' \<longrightarrow>
      row_frame (dma_buf s) (x2 a - x1 a + 1) (heap s) (heap s') \<and>
      dma_buf s' = dma_buf s \<and> buf1 s' = buf1 s \<and>
      (\<forall>d. dma_buf s = Some d \<longrightarrow> blk d \<noteq> blk px \<longrightarrow> heap s' (blk px) = heap s (blk px)))"
proof -
  have *: "row_frame (dma_buf s) (x2 a - x1 a + 1) (heap s) (heap s') \<and>
      dma_buf s' = dma_buf s \<and> buf1 s' = buf1 s \<and>
      (\<forall>d. dma_buf s = Some d \<longrightarrow> blk d \<noteq> blk px \<longrightarrow> heap s' (blk px) = heap s (blk px))"
    if "my_disp_flush drv s dp' a px = Inr s'" for dp'
  proof -
    from my_disp_flush_frame [OF that]
    have f: "row_frame (dma_buf s) (x2 a - x1 a + 1) (heap s) (heap s')"
      and p: "dma_buf s' = dma_buf s" "buf1 s' = buf1 s" by simp_all
    from f have "\<forall>d. dma_buf s = Some d \<longrightarrow> blk d \<noteq> blk px \<longrightarrow> heap s' (blk px) = heap s (blk px)"
      by (auto simp: row_frame_def)
    with f p show ?thesis by simp
  qed
  from * [of dp] * [of "dp\<lparr>user_data := Some Lcd_global\<rparr>"]
  show ?thesis by (simp add: copilot_as_manual)
qed

theorem C10_source_only_read_witness:
  "(\<exists>s'. my_disp_flush panel_480 tiny tiny_disp tiny_area (Ptr 1 0) = Inr s' \<and>
        heap s' 1 = Some [0x00FF, 0xFF00, 0x1234, 0xFFFF] \<and> dma_buf s' = Some (Ptr 0 0)) \<and>
   (\<exists>s'. my_disp_flush_copilot panel_480 tiny tiny_disp tiny_area (Ptr 1 0) = Inr s' \<and>
        heap s' 1 = Some [0x00FF, 0xFF00, 0x1234, 0xFFFF] \<and> dma_buf s' = Some (Ptr 0 0))"
proof -
  from tiny_flush_ok obtain s1 where
    r1: "my_disp_flush panel_480 tiny tiny_disp tiny_area (Ptr 1 0) = Inr s1" by blast
  from tiny_flush_copilot_ok obtain s2 where
    r2: "my_disp_flush_copilot panel_480 tiny tiny_disp tiny_area (Ptr 1 0) = Inr s2" by blast
  from C10_source_only_read [of panel_480 tiny tiny_disp tiny_area "Ptr 1 0" s1] r1
  have "dma_buf s1 = dma_buf tiny"
    and "\<forall>d. dma_buf tiny = Some d \<longrightarrow> blk d \<noteq> blk (Ptr 1 0) \<longrightarrow>
           heap s1 (blk (Ptr 1 0)) = heap tiny (blk (Ptr 1 0))"
    by blast+
  then have 1: "heap s1 1 = Some [0x00FF, 0xFF00, 0x1234, 0xFFFF] \<and> dma_buf s1 = Some (Ptr 0 0)"
    by (simp add: tiny_def)
  from C10_source_only_read [of panel_480 tiny tiny_disp tiny_area "Ptr 1 0" s2] r2
  have "dma_buf s2 = dma_buf tiny"
    and "\<forall>d. dma_buf tiny = Some d \<longrightarrow> blk d \<noteq> blk (Ptr 1 0) \<longrightarrow>
           heap s2 (blk (Ptr 1 0)) = heap tiny (blk (Ptr 1 0))"
    by blast+
  then have 2: "heap s2 1 = Some [0x00FF, 0xFF00, 0x1234, 0xFFFF] \<and> dma_buf s2 = Some (Ptr 0 0)"
    by (simp add: tiny_def)
  from r1 r2 1 2 show ?thesis by blast
qed

lemmas manual_defs = setup_manual_def setup_manual_stmts_def m_serial_def m_lvgl_def m_lcd_def
  m_dma_def m_buf1_def m_display_def m_draw_buf_def m_register_def m_ui_def
  heap_caps_malloc_def lv_display_create_def create_hello_world_ui_def
  emit_def emits_def lcd_call_def boot_def Let_def u32_def tdiv_def DRAW_BUF_SIZE_def
  dma_buf_static_def

lemma c_sizes_Returned:
  "u32 (setup_w s) \<noteq> 0 \<Longrightarrow>
     c_sizes s = Returned (s\<lparr>iSize := DRAW_BUF_SIZE_wh (setup_w s) (setup_h s),
                              buf_h := c_buf_h (setup_w s) (setup_h s)\<rparr>)"
  by (simp add: c_sizes_def c_buf_h_def Let_def)

lemmas copilot_defs = setup_copilot_def setup_copilot_stmts_def c_serial_def c_lvgl_def
  c_lcd_def c_sizes_Returned c_buf1_def c_draw_buf_def c_display_def c_register_def c_dma_def
  c_ui_def heap_caps_malloc_def lv_display_create_def create_hello_world_ui_def
  emit_def emits_def lcd_call_def boot_def Let_def
  dma_buf_static_def copilot_w_def [symmetric] copilot_h_def [symmetric]

section \<open>Bring-up\<close>

lemma trace_loop_pow: "trace ((loop ^^ n) s) = trace s @ concat (replicate n [Lv_timer_handler, Delay 5])"
  by (induction n arbitrary: s) (simp_all add: loop_def emits_def funpow_swap1)

lemma stage_marks_append: "stage_marks (es @ fs) = stage_marks es @ stage_marks fs"
  by (induction es) (simp_all split: option.splits)

lemma stage_marks_loops:
  "stage_marks (concat (replicate n [Lv_timer_handler, Delay 5])) = replicate n Render_loop"
  by (induction n) simp_all

lemma stages_loop_pow:
  assumes "stage_marks (trace s) \<noteq> []" and "last (stage_marks (trace s)) \<noteq> Render_loop"
  shows "stages (trace ((loop ^^ Suc n) s)) = stages (trace s) @ [Render_loop]"
proof -
  have "stage_marks (trace ((loop ^^ Suc n) s)) = stage_marks (trace s) @ replicate (Suc n) Render_loop"
    by (simp only: trace_loop_pow stage_marks_append stage_marks_loops)
  moreover have "remdups_adj (stage_marks (trace s) @ replicate (Suc n) Render_loop)
      = remdups_adj (stage_marks (trace s)) @ [Render_loop]"
    using assms
    by (subst remdups_adj_append'') (simp_all add: remdups_adj_replicate del: replicate.simps)
  ultimately show ?thesis by (simp add: stages_def)
qed

lemma manual_stage_marks:
  "fatal_ok e \<Longrightarrow> \<exists>s. setup_manual drv e (boot d0) = Returned s \<and>
      stages (trace s) = butlast spec_order \<and> stage_marks (trace s) \<noteq> [] \<and>
      last (stage_marks (trace s)) = Scene_build"
  by (cases "dma_malloc_ok e") (simp_all add: manual_defs fatal_ok_def stages_def spec_order_def)

lemma copilot_stage_marks:
  "fatal_ok e \<Longrightarrow> u32 (copilot_w drv d0) \<noteq> 0 \<Longrightarrow>
     \<exists>s. setup_copilot drv e (boot d0) = Returned s \<and>
      stages (trace s) = butlast copilot_order \<and> stage_marks (trace s) \<noteq> [] \<and>
      last (stage_marks (trace s)) = Scene_build"
  by (cases "dma_malloc_ok e")
     (simp_all add: copilot_defs fatal_ok_def stages_def copilot_order_def)




lemma run_Halted: "su s0 = Halted s \<Longrightarrow> run su n s0 = Halted s"
  by (simp add: run_def)

lemma stages_set: "set (stages tr) = set (stage_marks tr)"
  by (simp add: stages_def)

lemma manual_halts:
  assumes "\<not> fatal_ok e"
  shows "\<exists>s. setup_manual drv e (boot d0) = Halted s \<and> is_fatal_log (last (trace s)) \<and>
            Scene_build \<notin> set (stage_marks (trace s)) \<and>
            Render_loop \<notin> set (stage_marks (trace s))"
proof (cases "spiram_malloc_ok e")
  case False
  then show ?thesis
    by (cases "dma_malloc_ok e") (simp_all add: manual_defs)
next
  case sp: True
  show ?thesis
  proof (cases "display_create_ok e")
    case False
    with sp show ?thesis
      by (cases "dma_malloc_ok e") (simp_all add: manual_defs)
  next
    case True
    with sp assms have "\<not> draw_buf_init_ok e" by (simp add: fatal_ok_def)
    with sp True show ?thesis
      by (cases "dma_malloc_ok e") (simp_all add: manual_defs)
  qed
qed

lemma copilot_halts:
  assumes "\<not> fatal_ok e" and "u32 (copilot_w drv d0) \<noteq> 0"
  shows "\<exists>s. setup_copilot drv e (boot d0) = Halted s \<and> is_fatal_log (last (trace s)) \<and>
            Scene_build \<notin> set (stage_marks (trace s)) \<and>
            Render_loop \<notin> set (stage_marks (trace s))"
proof (cases "spiram_malloc_ok e")
  case False
  with assms(2) show ?thesis
    by (simp add: copilot_defs)
next
  case sp: True
  show ?thesis
  proof (cases "draw_buf_init_ok e")
    case False
    with sp assms(2) show ?thesis
      by (simp add: copilot_defs)
  next
    case True
    with sp assms have "\<not> display_create_ok e" by (simp add: fatal_ok_def)
    with sp True assms(2) show ?thesis
      by (simp add: copilot_defs)
  qed
qed

text \<open>
  C6, as the code has it. The failures that \<^verbatim>\<open>setup()\<close> tests for are three: the
  allocation of the pixel buffer, the creation of the display and the initialisation of
  the draw buffer; the result of \<^verbatim>\<open>lv_label_create\<close> is not tested. When one of the three
  fails, \<^verbatim>\<open>setup()\<close> of either program logs a line that
  starts with FATAL ERROR and enters \<^verbatim>\<open>while (1);\<close>: it never returns, however many
  calls of \<^verbatim>\<open>loop()\<close> one waits for, the state stays the one at the halt, and neither the
  scene nor the render loop was or is ever reached. (In the copilot program the panel
  width is read before, and a width of zero traps there.)
\<close>

theorem C6_fatal_halts:
  assumes "\<not> fatal_ok e"
  shows "(\<exists>s. setup_manual drv e (boot d0) = Halted s \<and> is_fatal_log (last (trace s)) \<and>
            (\<forall>n. run (setup_manual drv e) n (boot d0) = Halted s) \<and>
            Scene_build \<notin> set (stages (trace s)) \<and> Render_loop \<notin> set (stages (trace s))) \<and>
         (u32 (copilot_w drv d0) \<noteq> 0 \<longrightarrow>
          (\<exists>s. setup_copilot drv e (boot d0) = Halted s \<and> is_fatal_log (last (trace s)) \<and>
            (\<forall>n. run (setup_copilot drv e) n (boot d0) = Halted s) \<and>
            Scene_build \<notin> set (stages (trace s)) \<and> Render_loop \<notin> set (stages (trace s))))"
proof -
  from manual_halts [OF assms, of drv d0] obtain s where
    "setup_manual drv e (boot d0) = Halted s" "is_fatal_log (last (trace s))"
    "Scene_build \<notin> set (stage_marks (trace s))" "Render_loop \<notin> set (stage_marks (trace s))"
    by blast
  then have m: "\<exists>s. setup_manual drv e (boot d0) = Halted s \<and> is_fatal_log (last (trace s)) \<and>
            (\<forall>n. run (setup_manual drv e) n (boot d0) = Halted s) \<and>
            Scene_build \<notin> set (stages (trace s)) \<and> Render_loop \<notin> set (stages (trace s))"
    by (auto simp: run_Halted stages_set)
  have c: "\<exists>s. setup_copilot drv e (boot d0) = Halted s \<and> is_fatal_log (last (trace s)) \<and>
            (\<forall>n. run (setup_copilot drv e) n (boot d0) = Halted s) \<and>
            Scene_build \<notin> set (stages (trace s)) \<and> Render_loop \<notin> set (stages (trace s))"
    if "u32 (copilot_w drv d0) \<noteq> 0"
  proof -
    from copilot_halts [OF assms that] obtain s where
      "setup_copilot drv e (boot d0) = Halted s" "is_fatal_log (last (trace s))"
      "Scene_build \<notin> set (stage_marks (trace s))" "Render_loop \<notin> set (stage_marks (trace s))"
      by blast
    then show ?thesis by (auto simp: run_Halted stages_set)
  qed
  from m c show ?thesis by blast
qed

theorem C6_fatal_halts_witness:
  "\<not> fatal_ok env_no_psram \<and> u32 (copilot_w panel_480 ()) \<noteq> 0 \<and>
   (\<exists>s. setup_manual panel_480 env_no_psram (boot ()) = Halted s \<and>
        run (setup_manual panel_480 env_no_psram) 1000 (boot ()) = Halted s \<and>
        is_fatal_log (last (trace s))) \<and>
   (\<exists>s. setup_copilot panel_480 env_no_psram (boot ()) = Halted s \<and>
        run (setup_copilot panel_480 env_no_psram) 1000 (boot ()) = Halted s \<and>
        is_fatal_log (last (trace s)))"
proof -
  have a: "\<not> fatal_ok env_no_psram" by (simp add: fatal_ok_def env_no_psram_def env_ok_def)
  have b: "u32 (copilot_w panel_480 ()) \<noteq> 0" by (simp add: u32_def copilot_w_def panel_480_def)
  from C6_fatal_halts [OF a, of panel_480 "()"] a b show ?thesis by blast
qed

text \<open>When nothing fatal happens, \<^verbatim>\<open>setup()\<close> logs no fatal error, and the calls on the
  label are made with whatever \<^verbatim>\<open>lv_label_create\<close> returned.\<close>

lemma manual_quiet:
  assumes "fatal_ok e"
  shows "\<exists>s. setup_manual drv e (boot d0) = Returned s \<and> filter is_fatal_log (trace s) = [] \<and>
     Lv_scene (Lv_obj_align (lv_label_create (label_create_ok e)) ''LV_ALIGN_CENTER'' 0 0)
       \<in> set (trace s)"
  using assms
  by (cases "dma_malloc_ok e") (simp_all add: manual_defs fatal_ok_def)

lemma copilot_quiet:
  assumes "fatal_ok e" and "u32 (copilot_w drv d0) \<noteq> 0"
  shows "\<exists>s. setup_copilot drv e (boot d0) = Returned s \<and> filter is_fatal_log (trace s) = [] \<and>
     Lv_scene (Lv_obj_align (lv_label_create (label_create_ok e)) ''LV_ALIGN_CENTER'' 0 0)
       \<in> set (trace s)"
  using assms
  by (cases "dma_malloc_ok e") (simp_all add: copilot_defs fatal_ok_def)

theorem C6_label_counterexample:
  "\<not> label_create_ok env_no_label \<and>
   \<not> is_halted (setup_manual panel_480 env_no_label (boot ())) \<and>
   filter is_fatal_log (trace (state_of (setup_manual panel_480 env_no_label (boot ())))) = [] \<and>
   Lv_scene (Lv_obj_align None ''LV_ALIGN_CENTER'' 0 0)
     \<in> set (trace (state_of (setup_manual panel_480 env_no_label (boot ())))) \<and>
   stages (trace (state_of (run (setup_manual panel_480 env_no_label) (Suc 0) (boot ()))))
     = spec_order \<and>
   \<not> is_halted (setup_copilot panel_480 env_no_label (boot ())) \<and>
   filter is_fatal_log (trace (state_of (setup_copilot panel_480 env_no_label (boot ())))) = [] \<and>
   Lv_scene (Lv_obj_align None ''LV_ALIGN_CENTER'' 0 0)
     \<in> set (trace (state_of (setup_copilot panel_480 env_no_label (boot ())))) \<and>
   stages (trace (state_of (run (setup_copilot panel_480 env_no_label) (Suc 0) (boot ()))))
     = copilot_order"
proof -
  have l: "\<not> label_create_ok env_no_label" by (simp add: env_no_label_def)
  have n: "lv_label_create (label_create_ok env_no_label) = None"
    by (simp add: lv_label_create_def env_no_label_def)
  have a: "fatal_ok env_no_label" by (simp add: fatal_ok_def env_no_label_def env_ok_def)
  have b: "u32 (copilot_w panel_480 ()) \<noteq> 0" by (simp add: u32_def copilot_w_def panel_480_def)
  from manual_quiet [OF a, of panel_480 "()"] n obtain s where
    m1: "setup_manual panel_480 env_no_label (boot ()) = Returned s"
    and m2: "filter is_fatal_log (trace s) = []"
    and m3: "Lv_scene (Lv_obj_align None ''LV_ALIGN_CENTER'' 0 0) \<in> set (trace s)" by auto
  from manual_stage_marks [OF a, of panel_480 "()"] m1
  have "stages (trace s) = butlast spec_order" "stage_marks (trace s) \<noteq> []"
    "last (stage_marks (trace s)) = Scene_build" by auto
  then have m4: "stages (trace (state_of (run (setup_manual panel_480 env_no_label) (Suc 0) (boot ()))))
     = spec_order"
    using stages_loop_pow [of s 0] m1 by (simp add: run_def spec_order_def)
  from copilot_quiet [OF a b] n obtain t where
    c1: "setup_copilot panel_480 env_no_label (boot ()) = Returned t"
    and c2: "filter is_fatal_log (trace t) = []"
    and c3: "Lv_scene (Lv_obj_align None ''LV_ALIGN_CENTER'' 0 0) \<in> set (trace t)" by auto
  from copilot_stage_marks [OF a b] c1
  have "stages (trace t) = butlast copilot_order" "stage_marks (trace t) \<noteq> []"
    "last (stage_marks (trace t)) = Scene_build" by auto
  then have c4: "stages (trace (state_of (run (setup_copilot panel_480 env_no_label) (Suc 0) (boot ()))))
     = copilot_order"
    using stages_loop_pow [of t 0] c1 by (simp add: run_def copilot_order_def)
  from l m1 m2 m3 m4 c1 c2 c3 c4 show ?thesis by simp
qed

lemma manual_after_setup:
  assumes "fatal_ok e"
  shows "\<exists>s. setup_manual drv e (boot d0) = Returned s \<and>
     disp s = Some \<lparr>disp_id = 0, hor_res = 320, ver_res = 480,
                     flush_cb = Some My_disp_flush, user_data = Some Lcd_global\<rparr> \<and>
     heap s 0 = Some (replicate 512 0) \<and>
     (if dma_malloc_ok e
      then dma_buf s = Some (Ptr 1 0) \<and> heap s 1 = Some (replicate 320 0) \<and>
           buf1 s = Some (Ptr 2 0) \<and> heap s 2 = Some (replicate 7680 0)
      else dma_buf s = Some dma_buf_static \<and> buf1 s = Some (Ptr 1 0) \<and>
           heap s 1 = Some (replicate 7680 0) \<and>
           Serial_println ''Warning: DMA buffer allocation failed, using static fallback''
             \<in> set (trace s))"
  using assms
  by (cases "dma_malloc_ok e") (simp_all add: manual_defs fatal_ok_def)

lemma copilot_after_setup:
  assumes "fatal_ok e" and "u32 (copilot_w drv d0) \<noteq> 0"
  shows "\<exists>s. setup_copilot drv e (boot d0) = Returned s \<and>
     disp s = Some \<lparr>disp_id = 0, hor_res = copilot_w drv d0, ver_res = copilot_h drv d0,
                     flush_cb = Some My_disp_flush, user_data = None\<rparr> \<and>
     heap s 0 = Some (replicate 512 0) \<and>
     buf1 s = Some (Ptr 1 0) \<and>
     heap s 1 = Some (replicate (nat (DRAW_BUF_SIZE_wh (copilot_w drv d0) (copilot_h drv d0) div 2)) 0) \<and>
     (if dma_malloc_ok e
      then dma_buf s = Some (Ptr 2 0) \<and>
           heap s 2 = Some (replicate (nat (u32 (2 * copilot_w drv d0) div 2)) 0)
      else dma_buf s = Some dma_buf_static \<and>
           Serial_println ''Warning: dma_buf allocation failed, using static fallback''
             \<in> set (trace s))"
  using assms
  by (cases "dma_malloc_ok e") (simp_all add: copilot_defs fatal_ok_def)

lemma src_ok_D:
  "src_ok m px n \<Longrightarrow> \<exists>sbuf. m (blk px) = Some sbuf \<and> 0 \<le> off px \<and> off px + n \<le> int (length sbuf)"
  by (auto simp: src_ok_def split: option.splits)

text \<open>A flush through a row buffer that is wide enough for the rectangle returns, and
  leaves the buffer where and as large as it was.\<close>

lemma flush_returns:
  assumes dma: "dma_buf s = Some d" and db: "heap s (blk d) = Some dbuf"
    and dlo: "0 \<le> off d" and dhi: "off d + (x2 a - x1 a + 1) \<le> int (length dbuf)"
    and w: "x1 a \<le> x2 a" and h: "y1 a \<le> y2 a"
    and src: "src_ok (heap s) px ((x2 a - x1 a + 1) * (y2 a - y1 a + 1))"
    and ud: "user_data dp = Some l"
  shows "\<exists>s' dbuf'. my_disp_flush drv s dp a px = Inr s' \<and> dma_buf s' = Some d \<and>
           disp s' = disp s \<and> heap s' (blk d) = Some dbuf' \<and> length dbuf' = length dbuf \<and>
           row_frame (Some d) (x2 a - x1 a + 1) (heap s) (heap s')"
proof -
  from src_ok_D [OF src] obtain sbuf where sb: "heap s (blk px) = Some sbuf"
    and slo: "0 \<le> off px"
    and shi: "off px + (x2 a - x1 a + 1) * (y2 a - y1 a + 1) \<le> int (length sbuf)" by blast
  from my_disp_flush_ok [OF ud w h dma db dlo dhi sb slo shi]
  obtain s' where r: "my_disp_flush drv s dp a px = Inr s'" by blast
  from my_disp_flush_frame [OF r] dma
  have f: "row_frame (Some d) (x2 a - x1 a + 1) (heap s) (heap s')"
    and p: "dma_buf s' = Some d" "disp s' = disp s" by simp_all
  from f db obtain dbuf' where "heap s' (blk d) = Some dbuf'" "length dbuf' = length dbuf"
    by (auto simp: row_frame_def)
  with r f p show ?thesis by blast
qed

lemma fallback_flush:
  assumes fb: "fallback_in_use s"
    and w: "x1 a \<le> x2 a" and h: "y1 a \<le> y2 a" and cap: "x2 a - x1 a + 1 \<le> 512"
    and src: "src_ok (heap s) px ((x2 a - x1 a + 1) * (y2 a - y1 a + 1))"
    and ud: "user_data dp = Some l"
  shows "\<exists>s'. my_disp_flush drv s dp a px = Inr s' \<and> fallback_in_use s' \<and>
           row_frame (Some dma_buf_static) (x2 a - x1 a + 1) (heap s) (heap s')"
proof -
  from fb obtain b where dma: "dma_buf s = Some dma_buf_static"
    and db: "heap s (blk dma_buf_static) = Some b" and len: "length b = 512"
    by (auto simp: fallback_in_use_def split: option.splits)
  have dlo: "0 \<le> off dma_buf_static" by (simp add: dma_buf_static_def)
  have dhi: "off dma_buf_static + (x2 a - x1 a + 1) \<le> int (length b)"
    using cap len by (simp add: dma_buf_static_def)
  from flush_returns [OF dma db dlo dhi w h src ud, of drv]
  show ?thesis using len by (auto simp: fallback_in_use_def)
qed

text \<open>A row that does not fit into the buffer at \<^verbatim>\<open>dma_buf\<close> is an out-of-bounds write.\<close>

lemma convert_row_overflow:
  "m (blk d) = Some dbuf \<Longrightarrow> m (blk src) = Some sbuf \<Longrightarrow> 0 \<le> x \<Longrightarrow> 0 \<le> off d \<Longrightarrow>
   off d + x \<le> int (length dbuf) \<Longrightarrow> int (length dbuf) < off d + w \<Longrightarrow>
   0 \<le> off src \<Longrightarrow> off src + w \<le> int (length sbuf) \<Longrightarrow>
     convert_row m (Some d) src x w = Inl OutOfBounds"
proof (induction "nat (int (length dbuf) - (off d + x))" arbitrary: m x dbuf sbuf)
  case 0
  then have full: "off d + x = int (length dbuf)" by linarith
  have xw: "x < w" using 0 by linarith
  have ld: "load16 m (ptr_add src x) = Inr (sbuf ! nat (off src + x))"
    using 0 xw by (simp add: load16_def ptr_add_def)
  have st: "store16 m (ptr_add d x) (bswap16 (sbuf ! nat (off src + x))) = Inl OutOfBounds"
    using 0 full by (simp add: store16_def ptr_add_def)
  show ?case by (subst convert_row.simps) (simp add: xw ld st)
next
  case (Suc n)
  then have room: "off d + x < int (length dbuf)" by linarith
  have xw: "x < w" using Suc.prems by linarith
  have ld: "load16 m (ptr_add src x) = Inr (sbuf ! nat (off src + x))"
    using Suc.prems xw by (simp add: load16_def ptr_add_def)
  let ?v = "bswap16 (sbuf ! nat (off src + x))"
  let ?m1 = "m(blk d \<mapsto> dbuf[nat (off d + x) := ?v])"
  have st: "store16 m (ptr_add d x) ?v = Inr ?m1"
    using Suc.prems room by (simp add: store16_def ptr_add_def)
  have d1: "?m1 (blk d) = Some (dbuf[nat (off d + x) := ?v])" by simp
  obtain sbuf1 where s1: "?m1 (blk src) = Some sbuf1" and l1: "length sbuf1 = length sbuf"
    using Suc.prems(1,2) by (cases "blk src = blk d") auto
  have n: "n = nat (int (length (dbuf[nat (off d + x) := ?v])) - (off d + (x + 1)))"
    using Suc.hyps(2) by simp
  have "convert_row ?m1 (Some d) src (x + 1) w = Inl OutOfBounds"
    by (rule Suc.hyps(1) [OF n d1 s1]) (use Suc.prems l1 room in auto)
  then show ?case
    by (subst convert_row.simps) (simp add: xw ld st)
qed

lemma my_disp_flush_overflow:
  assumes ud: "user_data dp = Some l"
    and h: "y1 a \<le> y2 a"
    and dma: "dma_buf s = Some d" and db: "heap s (blk d) = Some dbuf"
    and dlo: "0 \<le> off d" and dfit: "off d \<le> int (length dbuf)"
    and dhi: "int (length dbuf) < off d + (x2 a - x1 a + 1)"
    and sb: "heap s (blk px) = Some sbuf" and slo: "0 \<le> off px"
    and shi: "off px + (x2 a - x1 a + 1) \<le> int (length sbuf)"
  shows "my_disp_flush drv s dp a px = Inl OutOfBounds"
proof -
  let ?w = "x2 a - x1 a + 1" and ?h = "y2 a - y1 a + 1"
  let ?s1 = "lcd_call l (drv_setAddrWindow drv (x1 a) (y1 a) ?w ?h)
            (Lcd_setAddrWindow l (x1 a) (y1 a) ?w ?h) s"
  have "convert_row (heap s) (Some d) px 0 ?w = Inl OutOfBounds"
    by (rule convert_row_overflow [OF db sb]) (use dlo dfit dhi slo shi in auto)
  then have "push_rows drv l ?s1 px 0 ?w ?h = Inl OutOfBounds"
    using h dma by (subst push_rows.simps) simp
  then show ?thesis using ud by (simp add: my_disp_flush_def Let_def)
qed

text \<open>After the row loop the buffer at \<^verbatim>\<open>dma_buf\<close> holds the last converted row.\<close>

lemma push_rows_last_row:
  "push_rows drv l s src y w h = Inr s' \<Longrightarrow> dma_buf s = Some d \<Longrightarrow> blk d \<noteq> blk src \<Longrightarrow>
   heap s (blk src) = Some sbuf \<Longrightarrow> 0 < w \<Longrightarrow> 0 \<le> off src \<Longrightarrow> y < h \<Longrightarrow>
     row_at (heap s') (Some d) w = map bswap16 (src_row sbuf (off src) w (nat (h - y) - 1))"
proof (induction "nat (h - y)" arbitrary: s src y)
  case 0
  then show ?case by simp
next
  case (Suc n)
  let ?s1 = "\<lambda>m1. lcd_call l (drv_pushPixels drv (row_at m1 (dma_buf s) w) w {DRAW_TO_LCD, DRAW_WITH_DMA})
            (push_event l w (row_at m1 (dma_buf s) w)) (s\<lparr>heap := m1\<rparr>)"
  from push_rows_step [OF Suc.prems(7) Suc.prems(1)] obtain m1 where
    cr: "convert_row (heap s) (dma_buf s) src 0 w = Inr m1" and
    rest: "push_rows drv l (?s1 m1) (ptr_add src w) (y + 1) w h = Inr s'" by blast
  have n: "n = nat (h - (y + 1))" using Suc.hyps(2) by linarith
  have cr': "convert_row (heap s) (Some d) src 0 w = Inr m1" using cr Suc.prems(2) by simp
  show ?case
  proof (cases "y + 1 < h")
    case False
    then have "push_rows drv l (?s1 m1) (ptr_add src w) (y + 1) w h = Inr (?s1 m1)"
      by (rule push_rows_done)
    with rest have "s' = ?s1 m1" by simp
    moreover have "nat (h - y) - 1 = 0" using False Suc.prems(7) by linarith
    ultimately show ?thesis
      using row_at_converted [OF cr' Suc.prems(5) Suc.prems(3) Suc.prems(4)] by simp
  next
    case True
    from convert_row_frame [OF cr'] Suc.prems(3,4)
    have sb1: "m1 (blk src) = Some sbuf" by (auto simp: row_frame_def)
    have dm: "dma_buf (?s1 m1) = Some d" using Suc.prems(2) by simp
    have dj: "blk d \<noteq> blk (ptr_add src w)" using Suc.prems(3) by (simp add: ptr_add_def)
    have hp: "heap (?s1 m1) (blk (ptr_add src w)) = Some sbuf" using sb1 by (simp add: ptr_add_def)
    have o: "0 \<le> off (ptr_add src w)" using Suc.prems(5,6) by (simp add: ptr_add_def)
    from Suc.hyps(1) [OF n rest dm dj hp Suc.prems(5) o True]
    have "row_at (heap s') (Some d) w =
        map bswap16 (src_row sbuf (off src + w) w (nat (h - (y + 1)) - 1))"
      by (simp add: ptr_add_def)
    moreover have "Suc (nat (h - (y + 1)) - 1) = nat (h - y) - 1" using True by linarith
    ultimately show ?thesis
      using src_row_shift [OF Suc.prems(6) Suc.prems(5), of sbuf "nat (h - (y + 1)) - 1"]
      by simp
  qed
qed

lemma my_disp_flush_last_row:
  assumes r: "my_disp_flush drv s dp a px = Inr s'"
    and w: "x1 a \<le> x2 a" and h: "y1 a \<le> y2 a"
    and dma: "dma_buf s = Some d" and dj: "blk d \<noteq> blk px"
    and sb: "heap s (blk px) = Some sbuf" and slo: "0 \<le> off px"
  shows "row_at (heap s') (Some d) (x2 a - x1 a + 1) =
         map bswap16 (src_row sbuf (off px) (x2 a - x1 a + 1) (nat (y2 a - y1 a + 1) - 1))"
proof -
  let ?w = "x2 a - x1 a + 1" and ?h = "y2 a - y1 a + 1"
  from my_disp_flush_Inr [OF r] obtain l s2 where
    pr: "push_rows drv l (lcd_call l (drv_setAddrWindow drv (x1 a) (y1 a) ?w ?h)
            (Lcd_setAddrWindow l (x1 a) (y1 a) ?w ?h) s) px 0 ?w ?h = Inr s2"
    and s': "s' = emit (Lv_display_flush_ready (disp_id dp)) s2" by blast
  from push_rows_last_row [OF pr _ dj _ _ slo, of sbuf] dma sb w h s'
  show ?thesis by simp
qed

lemma fallback_flush_content:
  assumes fb: "fallback_in_use s"
    and w: "x1 a \<le> x2 a" and h: "y1 a \<le> y2 a" and cap: "x2 a - x1 a + 1 \<le> 512"
    and sb: "heap s (blk px) = Some sbuf" and slo: "0 \<le> off px"
    and shi: "off px + (x2 a - x1 a + 1) * (y2 a - y1 a + 1) \<le> int (length sbuf)"
    and dj: "blk px \<noteq> blk dma_buf_static"
    and ud: "user_data dp = Some l"
  shows "\<exists>s'. my_disp_flush drv s dp a px = Inr s' \<and> fallback_in_use s' \<and>
           trace s' = trace s @
             Lcd_setAddrWindow l (x1 a) (y1 a) (x2 a - x1 a + 1) (y2 a - y1 a + 1) #
             map (\<lambda>k. push_event l (x2 a - x1 a + 1)
                        (map bswap16 (src_row sbuf (off px) (x2 a - x1 a + 1) k)))
               [0..<nat (y2 a - y1 a + 1)] @
             [Lv_display_flush_ready (disp_id dp)] \<and>
           row_at (heap s') (Some dma_buf_static) (x2 a - x1 a + 1) =
             map bswap16 (src_row sbuf (off px) (x2 a - x1 a + 1) (nat (y2 a - y1 a + 1) - 1))"
proof -
  have src: "src_ok (heap s) px ((x2 a - x1 a + 1) * (y2 a - y1 a + 1))"
    using sb slo shi by (simp add: src_ok_def)
  from fallback_flush [OF fb w h cap src ud, of drv] obtain s' where
    r: "my_disp_flush drv s dp a px = Inr s'" and fb': "fallback_in_use s'" by blast
  from fb have dma: "dma_buf s = Some dma_buf_static" by (simp add: fallback_in_use_def)
  have dj': "blk dma_buf_static \<noteq> blk px" using dj by simp
  from my_disp_flush_trace [OF r w dma dj' sb] ud
  have t: "trace s' = trace s @
             Lcd_setAddrWindow l (x1 a) (y1 a) (x2 a - x1 a + 1) (y2 a - y1 a + 1) #
             map (\<lambda>k. push_event l (x2 a - x1 a + 1)
                        (map bswap16 (src_row sbuf (off px) (x2 a - x1 a + 1) k)))
               [0..<nat (y2 a - y1 a + 1)] @
             [Lv_display_flush_ready (disp_id dp)]" by auto
  from my_disp_flush_last_row [OF r w h dma dj' sb slo] r fb' t show ?thesis by blast
qed

lemma fallback_flush_overflow:
  assumes fb: "fallback_in_use s"
    and h: "y1 a \<le> y2 a" and wide: "512 < x2 a - x1 a + 1"
    and src: "src_ok (heap s) px (x2 a - x1 a + 1)"
    and ud: "user_data dp = Some l"
  shows "my_disp_flush drv s dp a px = Inl OutOfBounds"
proof -
  from fb obtain b where dma: "dma_buf s = Some dma_buf_static"
    and db: "heap s (blk dma_buf_static) = Some b" and len: "length b = 512"
    by (auto simp: fallback_in_use_def split: option.splits)
  from src_ok_D [OF src] obtain sbuf where sb: "heap s (blk px) = Some sbuf"
    and slo: "0 \<le> off px" and shi: "off px + (x2 a - x1 a + 1) \<le> int (length sbuf)" by blast
  show ?thesis
    by (rule my_disp_flush_overflow [OF ud h dma db _ _ _ sb slo shi])
       (use len wide in \<open>simp_all add: dma_buf_static_def\<close>)
qed

text \<open>
  C5. When the allocation of the row transfer buffer fails and nothing fatal happens,
  \<^verbatim>\<open>setup()\<close> of either program logs its warning, makes \<^verbatim>\<open>dma_buf\<close> point to the static
  array of 512 samples, and returns. From then on, in every state in which the fallback
  is in use, a flush of a rectangle at most 512 wide, from a source the engine has filled,
  returns without a fault, writes nowhere but into the first \<open>w\<close> samples of the static
  array, and leaves the fallback in use. It does its work through the static array: with
  the source in another object, every row it pushes is the converted source row that it
  has just written there, and afterwards the first \<open>w\<close> samples of the static array are
  the last converted row. The bound is what makes it safe: for a rectangle wider than
  512 the first row is an out-of-bounds write.
\<close>

theorem C5_fallback:
  assumes "\<not> dma_malloc_ok e" and "fatal_ok e"
  shows "(\<exists>s. setup_manual drv e (boot d0) = Returned s \<and> fallback_in_use s \<and>
            Serial_println ''Warning: DMA buffer allocation failed, using static fallback''
              \<in> set (trace s)) \<and>
         (u32 (copilot_w drv d0) \<noteq> 0 \<longrightarrow>
           (\<exists>s. setup_copilot drv e (boot d0) = Returned s \<and> fallback_in_use s \<and>
              Serial_println ''Warning: dma_buf allocation failed, using static fallback''
                \<in> set (trace s))) \<and>
         (\<forall>s a px dp.
            fallback_in_use s \<and> x1 a \<le> x2 a \<and> y1 a \<le> y2 a \<and> x2 a - x1 a + 1 \<le> 512 \<and>
            src_ok (heap s) px ((x2 a - x1 a + 1) * (y2 a - y1 a + 1)) \<longrightarrow>
              (\<forall>l. user_data dp = Some l \<longrightarrow>
                 (\<exists>s'. my_disp_flush drv s dp a px = Inr s' \<and> fallback_in_use s' \<and>
                    row_frame (Some dma_buf_static) (x2 a - x1 a + 1) (heap s) (heap s'))) \<and>
              (\<exists>s'. my_disp_flush_copilot drv s dp a px = Inr s' \<and> fallback_in_use s' \<and>
                    row_frame (Some dma_buf_static) (x2 a - x1 a + 1) (heap s) (heap s'))) \<and>
         (\<forall>s a px dp sbuf.
            fallback_in_use s \<and> x1 a \<le> x2 a \<and> y1 a \<le> y2 a \<and> x2 a - x1 a + 1 \<le> 512 \<and>
            heap s (blk px) = Some sbuf \<and> 0 \<le> off px \<and>
            off px + (x2 a - x1 a + 1) * (y2 a - y1 a + 1) \<le> int (length sbuf) \<and>
            blk px \<noteq> blk dma_buf_static \<longrightarrow>
              (\<forall>l. user_data dp = Some l \<longrightarrow>
                 (\<exists>s'. my_disp_flush drv s dp a px = Inr s' \<and>
                    trace s' = trace s @
                      Lcd_setAddrWindow l (x1 a) (y1 a) (x2 a - x1 a + 1) (y2 a - y1 a + 1) #
                      map (\<lambda>k. push_event l (x2 a - x1 a + 1)
                                 (map bswap16 (src_row sbuf (off px) (x2 a - x1 a + 1) k)))
                        [0..<nat (y2 a - y1 a + 1)] @
                      [Lv_display_flush_ready (disp_id dp)] \<and>
                    row_at (heap s') (Some dma_buf_static) (x2 a - x1 a + 1) =
                      map bswap16 (src_row sbuf (off px) (x2 a - x1 a + 1)
                                     (nat (y2 a - y1 a + 1) - 1)))) \<and>
              (\<exists>s'. my_disp_flush_copilot drv s dp a px = Inr s' \<and>
                    trace s' = trace s @
                      Lcd_setAddrWindow Lcd_global (x1 a) (y1 a) (x2 a - x1 a + 1)
                        (y2 a - y1 a + 1) #
                      map (\<lambda>k. push_event Lcd_global (x2 a - x1 a + 1)
                                 (map bswap16 (src_row sbuf (off px) (x2 a - x1 a + 1) k)))
                        [0..<nat (y2 a - y1 a + 1)] @
                      [Lv_display_flush_ready (disp_id dp)] \<and>
                    row_at (heap s') (Some dma_buf_static) (x2 a - x1 a + 1) =
                      map bswap16 (src_row sbuf (off px) (x2 a - x1 a + 1)
                                     (nat (y2 a - y1 a + 1) - 1)))) \<and>
         (\<forall>s a px dp.
            fallback_in_use s \<and> y1 a \<le> y2 a \<and> 512 < x2 a - x1 a + 1 \<and>
            src_ok (heap s) px (x2 a - x1 a + 1) \<longrightarrow>
              (\<forall>l. user_data dp = Some l \<longrightarrow> my_disp_flush drv s dp a px = Inl OutOfBounds) \<and>
              my_disp_flush_copilot drv s dp a px = Inl OutOfBounds)"
proof -
  from manual_after_setup [OF assms(2), of drv d0] assms(1)
  have m: "\<exists>s. setup_manual drv e (boot d0) = Returned s \<and> fallback_in_use s \<and>
            Serial_println ''Warning: DMA buffer allocation failed, using static fallback''
              \<in> set (trace s)"
    by (auto simp: fallback_in_use_def dma_buf_static_def)
  have c: "\<exists>s. setup_copilot drv e (boot d0) = Returned s \<and> fallback_in_use s \<and>
              Serial_println ''Warning: dma_buf allocation failed, using static fallback''
                \<in> set (trace s)"
    if "u32 (copilot_w drv d0) \<noteq> 0"
    using copilot_after_setup [OF assms(2) that] assms(1)
    by (auto simp: fallback_in_use_def dma_buf_static_def)
  have f: "(\<forall>l. user_data dp = Some l \<longrightarrow>
                 (\<exists>s'. my_disp_flush drv s dp a px = Inr s' \<and> fallback_in_use s' \<and>
                    row_frame (Some dma_buf_static) (x2 a - x1 a + 1) (heap s) (heap s'))) \<and>
              (\<exists>s'. my_disp_flush_copilot drv s dp a px = Inr s' \<and> fallback_in_use s' \<and>
                    row_frame (Some dma_buf_static) (x2 a - x1 a + 1) (heap s) (heap s'))"
    if "fallback_in_use s" "x1 a \<le> x2 a" "y1 a \<le> y2 a" "x2 a - x1 a + 1 \<le> 512"
       "src_ok (heap s) px ((x2 a - x1 a + 1) * (y2 a - y1 a + 1))"
    for s :: "'a sys" and a px dp
  proof -
    have 1: "\<exists>s'. my_disp_flush drv s dq a px = Inr s' \<and> fallback_in_use s' \<and>
                    row_frame (Some dma_buf_static) (x2 a - x1 a + 1) (heap s) (heap s')"
      if "user_data dq = Some l" for dq l
      by (rule fallback_flush [OF \<open>fallback_in_use s\<close> \<open>x1 a \<le> x2 a\<close> \<open>y1 a \<le> y2 a\<close>
            \<open>x2 a - x1 a + 1 \<le> 512\<close>
            \<open>src_ok (heap s) px ((x2 a - x1 a + 1) * (y2 a - y1 a + 1))\<close> that])
    from 1 [of dp] 1 [of "dp\<lparr>user_data := Some Lcd_global\<rparr>" Lcd_global]
    show ?thesis by (simp add: copilot_as_manual)
  qed
  have g: "(\<forall>l. user_data dp = Some l \<longrightarrow>
                 (\<exists>s'. my_disp_flush drv s dp a px = Inr s' \<and>
                    trace s' = trace s @
                      Lcd_setAddrWindow l (x1 a) (y1 a) (x2 a - x1 a + 1) (y2 a - y1 a + 1) #
                      map (\<lambda>k. push_event l (x2 a - x1 a + 1)
                                 (map bswap16 (src_row sbuf (off px) (x2 a - x1 a + 1) k)))
                        [0..<nat (y2 a - y1 a + 1)] @
                      [Lv_display_flush_ready (disp_id dp)] \<and>
                    row_at (heap s') (Some dma_buf_static) (x2 a - x1 a + 1) =
                      map bswap16 (src_row sbuf (off px) (x2 a - x1 a + 1)
                                     (nat (y2 a - y1 a + 1) - 1)))) \<and>
              (\<exists>s'. my_disp_flush_copilot drv s dp a px = Inr s' \<and>
                    trace s' = trace s @
                      Lcd_setAddrWindow Lcd_global (x1 a) (y1 a) (x2 a - x1 a + 1)
                        (y2 a - y1 a + 1) #
                      map (\<lambda>k. push_event Lcd_global (x2 a - x1 a + 1)
                                 (map bswap16 (src_row sbuf (off px) (x2 a - x1 a + 1) k)))
                        [0..<nat (y2 a - y1 a + 1)] @
                      [Lv_display_flush_ready (disp_id dp)] \<and>
                    row_at (heap s') (Some dma_buf_static) (x2 a - x1 a + 1) =
                      map bswap16 (src_row sbuf (off px) (x2 a - x1 a + 1)
                                     (nat (y2 a - y1 a + 1) - 1)))"
    if p: "fallback_in_use s" "x1 a \<le> x2 a" "y1 a \<le> y2 a" "x2 a - x1 a + 1 \<le> 512"
       "heap s (blk px) = Some sbuf" "0 \<le> off px"
       "off px + (x2 a - x1 a + 1) * (y2 a - y1 a + 1) \<le> int (length sbuf)"
       "blk px \<noteq> blk dma_buf_static"
    for s :: "'a sys" and a px dp sbuf
  proof -
    have 1: "\<exists>s'. my_disp_flush drv s dq a px = Inr s' \<and>
                    trace s' = trace s @
                      Lcd_setAddrWindow l (x1 a) (y1 a) (x2 a - x1 a + 1) (y2 a - y1 a + 1) #
                      map (\<lambda>k. push_event l (x2 a - x1 a + 1)
                                 (map bswap16 (src_row sbuf (off px) (x2 a - x1 a + 1) k)))
                        [0..<nat (y2 a - y1 a + 1)] @
                      [Lv_display_flush_ready (disp_id dq)] \<and>
                    row_at (heap s') (Some dma_buf_static) (x2 a - x1 a + 1) =
                      map bswap16 (src_row sbuf (off px) (x2 a - x1 a + 1)
                                     (nat (y2 a - y1 a + 1) - 1))"
      if "user_data dq = Some l" for dq l
      using fallback_flush_content [OF p that, of drv] by blast
    from 1 [of dp] 1 [of "dp\<lparr>user_data := Some Lcd_global\<rparr>" Lcd_global]
    show ?thesis by (simp add: copilot_as_manual)
  qed
  have o: "(\<forall>l. user_data dp = Some l \<longrightarrow> my_disp_flush drv s dp a px = Inl OutOfBounds) \<and>
              my_disp_flush_copilot drv s dp a px = Inl OutOfBounds"
    if p: "fallback_in_use s" "y1 a \<le> y2 a" "512 < x2 a - x1 a + 1"
       "src_ok (heap s) px (x2 a - x1 a + 1)"
    for s :: "'a sys" and a px dp
  proof -
    have 1: "my_disp_flush drv s dq a px = Inl OutOfBounds" if "user_data dq = Some l" for dq l
      by (rule fallback_flush_overflow [OF p that])
    from 1 [of dp] 1 [of "dp\<lparr>user_data := Some Lcd_global\<rparr>" Lcd_global]
    show ?thesis by (simp add: copilot_as_manual)
  qed
  have F: "\<forall>s a px dp.
            fallback_in_use s \<and> x1 a \<le> x2 a \<and> y1 a \<le> y2 a \<and> x2 a - x1 a + 1 \<le> 512 \<and>
            src_ok (heap s) px ((x2 a - x1 a + 1) * (y2 a - y1 a + 1)) \<longrightarrow>
              (\<forall>l. user_data dp = Some l \<longrightarrow>
                 (\<exists>s'. my_disp_flush drv s dp a px = Inr s' \<and> fallback_in_use s' \<and>
                    row_frame (Some dma_buf_static) (x2 a - x1 a + 1) (heap s) (heap s'))) \<and>
              (\<exists>s'. my_disp_flush_copilot drv s dp a px = Inr s' \<and> fallback_in_use s' \<and>
                    row_frame (Some dma_buf_static) (x2 a - x1 a + 1) (heap s) (heap s'))"
    using f by blast
  have G: "\<forall>s a px dp sbuf.
            fallback_in_use s \<and> x1 a \<le> x2 a \<and> y1 a \<le> y2 a \<and> x2 a - x1 a + 1 \<le> 512 \<and>
            heap s (blk px) = Some sbuf \<and> 0 \<le> off px \<and>
            off px + (x2 a - x1 a + 1) * (y2 a - y1 a + 1) \<le> int (length sbuf) \<and>
            blk px \<noteq> blk dma_buf_static \<longrightarrow>
              (\<forall>l. user_data dp = Some l \<longrightarrow>
                 (\<exists>s'. my_disp_flush drv s dp a px = Inr s' \<and>
                    trace s' = trace s @
                      Lcd_setAddrWindow l (x1 a) (y1 a) (x2 a - x1 a + 1) (y2 a - y1 a + 1) #
                      map (\<lambda>k. push_event l (x2 a - x1 a + 1)
                                 (map bswap16 (src_row sbuf (off px) (x2 a - x1 a + 1) k)))
                        [0..<nat (y2 a - y1 a + 1)] @
                      [Lv_display_flush_ready (disp_id dp)] \<and>
                    row_at (heap s') (Some dma_buf_static) (x2 a - x1 a + 1) =
                      map bswap16 (src_row sbuf (off px) (x2 a - x1 a + 1)
                                     (nat (y2 a - y1 a + 1) - 1)))) \<and>
              (\<exists>s'. my_disp_flush_copilot drv s dp a px = Inr s' \<and>
                    trace s' = trace s @
                      Lcd_setAddrWindow Lcd_global (x1 a) (y1 a) (x2 a - x1 a + 1)
                        (y2 a - y1 a + 1) #
                      map (\<lambda>k. push_event Lcd_global (x2 a - x1 a + 1)
                                 (map bswap16 (src_row sbuf (off px) (x2 a - x1 a + 1) k)))
                        [0..<nat (y2 a - y1 a + 1)] @
                      [Lv_display_flush_ready (disp_id dp)] \<and>
                    row_at (heap s') (Some dma_buf_static) (x2 a - x1 a + 1) =
                      map bswap16 (src_row sbuf (off px) (x2 a - x1 a + 1)
                                     (nat (y2 a - y1 a + 1) - 1)))"
    using g by blast
  have O: "\<forall>s a px dp.
            fallback_in_use s \<and> y1 a \<le> y2 a \<and> 512 < x2 a - x1 a + 1 \<and>
            src_ok (heap s) px (x2 a - x1 a + 1) \<longrightarrow>
              (\<forall>l. user_data dp = Some l \<longrightarrow> my_disp_flush drv s dp a px = Inl OutOfBounds) \<and>
              my_disp_flush_copilot drv s dp a px = Inl OutOfBounds"
    using o by blast
  from m c F G O show ?thesis by (intro conjI impI) blast+
qed

theorem C5_fallback_witness:
  "\<not> dma_malloc_ok env_no_dma \<and> fatal_ok env_no_dma \<and>
   (\<exists>s s' t. setup_manual panel_480 env_no_dma (boot ()) = Returned s \<and> fallback_in_use s \<and>
      my_disp_flush_copilot panel_480 s tiny_disp \<lparr>x1 = 0, y1 = 0, x2 = 319, y2 = 0\<rparr> (Ptr 1 0)
        = Inr s' \<and>
      row_at (heap s') (Some dma_buf_static) 320 =
        map bswap16 (src_row (replicate 7680 0) 0 320 0) \<and>
      my_disp_flush_copilot panel_480 s tiny_disp \<lparr>x1 = 0, y1 = 0, x2 = 599, y2 = 0\<rparr> (Ptr 1 0)
        = Inl OutOfBounds \<and>
      my_disp_flush panel_480 (s\<lparr>heap := (heap s)(1 \<mapsto> [0x00FF, 0xFF00, 0x1234, 0xFFFF])\<rparr>)
        tiny_disp tiny_area (Ptr 1 0) = Inr t \<and>
      pushed_rows (drop (length (trace s)) (trace t)) = [[0xFF00, 0x00FF], [0x3412, 0xFFFF]] \<and>
      row_at (heap t) (Some dma_buf_static) 2 = [0x3412, 0xFFFF])"
proof -
  let ?a = "\<lparr>x1 = 0, y1 = 0, x2 = 319, y2 = 0\<rparr>"
  let ?b = "\<lparr>x1 = 0, y1 = 0, x2 = 599, y2 = 0\<rparr>"
  let ?src = "[0x00FF, 0xFF00, 0x1234, 0xFFFF] :: u16 list"
  have a: "\<not> dma_malloc_ok env_no_dma" by (simp add: env_no_dma_def)
  have b: "fatal_ok env_no_dma" by (simp add: fatal_ok_def env_no_dma_def env_ok_def)
  note c5 = C5_fallback [OF a b, of panel_480 "()"]
  from c5 obtain s where r: "setup_manual panel_480 env_no_dma (boot ()) = Returned s"
    and fb: "fallback_in_use s" by blast
  from manual_after_setup [OF b, of panel_480 "()"] r a
  have hp: "heap s 1 = Some (replicate 7680 0)" by auto
  have g: "x1 ?a \<le> x2 ?a \<and> y1 ?a \<le> y2 ?a \<and> x2 ?a - x1 ?a + 1 \<le> 512 \<and>
      heap s (blk (Ptr 1 0)) = Some (replicate 7680 0) \<and> 0 \<le> off (Ptr 1 0) \<and>
      off (Ptr 1 0) + (x2 ?a - x1 ?a + 1) * (y2 ?a - y1 ?a + 1) \<le> int (length (replicate 7680 (0::u16))) \<and>
      blk (Ptr 1 0) \<noteq> blk dma_buf_static"
    using hp by (simp add: dma_buf_static_def)
  from c5 have G: "\<forall>s a px dp sbuf.
            fallback_in_use s \<and> x1 a \<le> x2 a \<and> y1 a \<le> y2 a \<and> x2 a - x1 a + 1 \<le> 512 \<and>
            heap s (blk px) = Some sbuf \<and> 0 \<le> off px \<and>
            off px + (x2 a - x1 a + 1) * (y2 a - y1 a + 1) \<le> int (length sbuf) \<and>
            blk px \<noteq> blk dma_buf_static \<longrightarrow>
              (\<exists>s'. my_disp_flush_copilot panel_480 s dp a px = Inr s' \<and>
                    row_at (heap s') (Some dma_buf_static) (x2 a - x1 a + 1) =
                      map bswap16 (src_row sbuf (off px) (x2 a - x1 a + 1)
                                     (nat (y2 a - y1 a + 1) - 1)))"
    by blast
  from G [rule_format, of s ?a "Ptr 1 0" "replicate 7680 0" tiny_disp] fb g
  obtain s' where 1: "my_disp_flush_copilot panel_480 s tiny_disp ?a (Ptr 1 0) = Inr s'"
    and 2: "row_at (heap s') (Some dma_buf_static) 320 =
        map bswap16 (src_row (replicate 7680 0) 0 320 0)"
    by auto
  have so: "src_ok (heap s) (Ptr 1 0) (x2 ?b - x1 ?b + 1)" using hp by (simp add: src_ok_def)
  from c5 have O: "\<forall>s a px dp.
            fallback_in_use s \<and> y1 a \<le> y2 a \<and> 512 < x2 a - x1 a + 1 \<and>
            src_ok (heap s) px (x2 a - x1 a + 1) \<longrightarrow>
              my_disp_flush_copilot panel_480 s dp a px = Inl OutOfBounds"
    by blast
  from O [rule_format, of s ?b "Ptr 1 0" tiny_disp] fb so
  have 3: "my_disp_flush_copilot panel_480 s tiny_disp ?b (Ptr 1 0) = Inl OutOfBounds" by simp
  let ?u = "s\<lparr>heap := (heap s)(1 \<mapsto> ?src)\<rparr>"
  have fu: "fallback_in_use ?u" using fb by (simp add: fallback_in_use_def dma_buf_static_def)
  have gu: "x1 tiny_area \<le> x2 tiny_area \<and> y1 tiny_area \<le> y2 tiny_area \<and>
      x2 tiny_area - x1 tiny_area + 1 \<le> 512 \<and>
      heap ?u (blk (Ptr 1 0)) = Some ?src \<and> 0 \<le> off (Ptr 1 0) \<and>
      off (Ptr 1 0) + (x2 tiny_area - x1 tiny_area + 1) * (y2 tiny_area - y1 tiny_area + 1)
        \<le> int (length ?src) \<and>
      blk (Ptr 1 0) \<noteq> blk dma_buf_static"
    by (simp add: tiny_area_def dma_buf_static_def)
  have ud: "user_data tiny_disp = Some Lcd_global" by (simp add: tiny_disp_def)
  from c5 have H: "\<forall>s a px dp sbuf.
            fallback_in_use s \<and> x1 a \<le> x2 a \<and> y1 a \<le> y2 a \<and> x2 a - x1 a + 1 \<le> 512 \<and>
            heap s (blk px) = Some sbuf \<and> 0 \<le> off px \<and>
            off px + (x2 a - x1 a + 1) * (y2 a - y1 a + 1) \<le> int (length sbuf) \<and>
            blk px \<noteq> blk dma_buf_static \<longrightarrow>
              (\<forall>l. user_data dp = Some l \<longrightarrow>
                 (\<exists>s'. my_disp_flush panel_480 s dp a px = Inr s' \<and>
                    trace s' = trace s @
                      Lcd_setAddrWindow l (x1 a) (y1 a) (x2 a - x1 a + 1) (y2 a - y1 a + 1) #
                      map (\<lambda>k. push_event l (x2 a - x1 a + 1)
                                 (map bswap16 (src_row sbuf (off px) (x2 a - x1 a + 1) k)))
                        [0..<nat (y2 a - y1 a + 1)] @
                      [Lv_display_flush_ready (disp_id dp)] \<and>
                    row_at (heap s') (Some dma_buf_static) (x2 a - x1 a + 1) =
                      map bswap16 (src_row sbuf (off px) (x2 a - x1 a + 1)
                                     (nat (y2 a - y1 a + 1) - 1))))"
    by blast
  from H [rule_format, of ?u tiny_area "Ptr 1 0" ?src tiny_disp Lcd_global] fu gu ud
  obtain t where 4: "my_disp_flush panel_480 ?u tiny_disp tiny_area (Ptr 1 0) = Inr t"
    and tt: "trace t = trace ?u @
        Lcd_setAddrWindow Lcd_global (x1 tiny_area) (y1 tiny_area)
          (x2 tiny_area - x1 tiny_area + 1) (y2 tiny_area - y1 tiny_area + 1) #
        map (\<lambda>k. push_event Lcd_global (x2 tiny_area - x1 tiny_area + 1)
              (map bswap16 (src_row ?src (off (Ptr 1 0)) (x2 tiny_area - x1 tiny_area + 1) k)))
          [0..<nat (y2 tiny_area - y1 tiny_area + 1)] @
        [Lv_display_flush_ready (disp_id tiny_disp)]"
    and rt: "row_at (heap t) (Some dma_buf_static) (x2 tiny_area - x1 tiny_area + 1) =
        map bswap16 (src_row ?src (off (Ptr 1 0)) (x2 tiny_area - x1 tiny_area + 1)
          (nat (y2 tiny_area - y1 tiny_area + 1) - 1))"
    by blast
  have rows: "map (\<lambda>k. map bswap16 (src_row ?src (off (Ptr 1 0))
                   (x2 tiny_area - x1 tiny_area + 1) k))
                [0..<nat (y2 tiny_area - y1 tiny_area + 1)] = [[0xFF00, 0x00FF], [0x3412, 0xFFFF]]"
    by (simp add: tiny_area_def src_row_def bswap16_def upt_conv_Cons)
  have 5: "pushed_rows (drop (length (trace s)) (trace t)) = [[0xFF00, 0x00FF], [0x3412, 0xFFFF]]"
    unfolding tt using rows
    by (simp add: pushed_rows_append pushed_rows_push_events)
  have 6: "row_at (heap t) (Some dma_buf_static) 2 = [0x3412, 0xFFFF]"
    using rt by (simp add: tiny_area_def src_row_def bswap16_def)
  from a b r fb 1 2 3 4 5 6 show ?thesis by blast
qed






lemma push_rows_null:
  assumes "dma_buf s = None" and "0 < w" and "0 < h"
  shows "(\<exists>f. push_rows drv l s px 0 w h = Inl f) \<and>
         (src_ok (heap s) px 1 \<longrightarrow> push_rows drv l s px 0 w h = Inl NullDeref)"
proof -
  from convert_row_null_fault [OF assms(2), of "heap s" px] obtain f where
    f: "convert_row (heap s) None px 0 w = Inl f" by blast
  have a: "push_rows drv l s px 0 w h = Inl f"
    by (subst push_rows.simps) (simp add: assms f)
  have "push_rows drv l s px 0 w h = Inl NullDeref" if "src_ok (heap s) px 1"
  proof -
    from src_ok_D [OF that] obtain sbuf where "heap s (blk px) = Some sbuf" "0 \<le> off px"
      "off px + 1 \<le> int (length sbuf)" by blast
    then have "convert_row (heap s) None px 0 w = Inl NullDeref"
      using assms(2) by (intro convert_row_null) auto
    then show ?thesis by (subst push_rows.simps) (simp add: assms)
  qed
  with a show ?thesis by blast
qed

lemma null_flush:
  assumes "dma_buf s = None" and "x1 a \<le> x2 a" and "y1 a \<le> y2 a" and "user_data dp = Some l"
  shows "(\<exists>f. my_disp_flush drv s dp a px = Inl f) \<and>
         (src_ok (heap s) px 1 \<longrightarrow> my_disp_flush drv s dp a px = Inl NullDeref)"
proof -
  let ?w = "x2 a - x1 a + 1" and ?h = "y2 a - y1 a + 1"
  let ?s1 = "lcd_call l (drv_setAddrWindow drv (x1 a) (y1 a) ?w ?h)
            (Lcd_setAddrWindow l (x1 a) (y1 a) ?w ?h) s"
  have "dma_buf ?s1 = None" using assms(1) by simp
  from push_rows_null [OF this, of ?w ?h drv l px] assms(2,3)
  have "(\<exists>f. push_rows drv l ?s1 px 0 ?w ?h = Inl f) \<and>
         (src_ok (heap s) px 1 \<longrightarrow> push_rows drv l ?s1 px 0 ?w ?h = Inl NullDeref)"
    by simp
  then show ?thesis
    using assms(4) by (auto simp: my_disp_flush_def Let_def)
qed

lemma copilot_window:
  assumes "fatal_ok e" and "u32 (copilot_w drv d0) \<noteq> 0"
  shows "\<exists>s dp. exec (take 8 (setup_copilot_stmts drv e)) (boot d0) = Returned s \<and>
           drop 8 (setup_copilot_stmts drv e) = [c_dma e, c_ui e] \<and>
           disp s = Some dp \<and> flush_cb dp = Some My_disp_flush \<and> dma_buf s = None \<and>
           buf1 s = Some (Ptr 1 0) \<and>
           heap s 1 = Some (replicate
             (nat (DRAW_BUF_SIZE_wh (copilot_w drv d0) (copilot_h drv d0) div 2)) 0)"
  using assms
  by (simp add: copilot_defs fatal_ok_def)


text \<open>
  C8. Both callbacks write through \<^verbatim>\<open>dma_buf\<close> without a null check: invoked on a
  non-empty rectangle while \<^verbatim>\<open>dma_buf\<close> is null they do not return, and when the first
  source sample is readable the fault is the null dereference. In the copilot program
  such a state exists during \<^verbatim>\<open>setup()\<close>: after its first eight statements, with only
  the allocation of \<^verbatim>\<open>dma_buf\<close> and the scene left to run, the flush callback is
  registered with the display and \<^verbatim>\<open>dma_buf\<close> is still null, so a flush invoked there
  faults.
\<close>

theorem C8_needs_row_buffer:
  "(dma_buf s = None \<and> x1 a \<le> x2 a \<and> y1 a \<le> y2 a \<longrightarrow>
      (\<forall>l. user_data dp = Some l \<longrightarrow>
         (\<exists>f. my_disp_flush drv s dp a px = Inl f) \<and>
         (src_ok (heap s) px 1 \<longrightarrow> my_disp_flush drv s dp a px = Inl NullDeref)) \<and>
      (\<exists>f. my_disp_flush_copilot drv s dp a px = Inl f) \<and>
      (src_ok (heap s) px 1 \<longrightarrow> my_disp_flush_copilot drv s dp a px = Inl NullDeref)) \<and>
   (fatal_ok e \<and> u32 (copilot_w drv d0) \<noteq> 0 \<longrightarrow>
      (\<exists>s0 dp0. exec (take 8 (setup_copilot_stmts drv e)) (boot d0) = Returned s0 \<and>
         drop 8 (setup_copilot_stmts drv e) = [c_dma e, c_ui e] \<and>
         disp s0 = Some dp0 \<and> flush_cb dp0 = Some My_disp_flush \<and> dma_buf s0 = None \<and>
         (\<forall>b qx. x1 b \<le> x2 b \<and> y1 b \<le> y2 b \<longrightarrow>
            (\<exists>f. my_disp_flush_copilot drv s0 dp0 b qx = Inl f) \<and>
            (src_ok (heap s0) qx 1 \<longrightarrow>
               my_disp_flush_copilot drv s0 dp0 b qx = Inl NullDeref))))"
proof -
  have n: "(\<exists>f. my_disp_flush_copilot drv t dq b qx = Inl f) \<and>
      (src_ok (heap t) qx 1 \<longrightarrow> my_disp_flush_copilot drv t dq b qx = Inl NullDeref)"
    if "dma_buf t = None" "x1 b \<le> x2 b" "y1 b \<le> y2 b" for t :: "'a sys" and dq b qx
    using null_flush [OF that, of "dq\<lparr>user_data := Some Lcd_global\<rparr>" Lcd_global drv qx]
    by (simp add: copilot_as_manual)
  have 1: "(\<forall>l. user_data dp = Some l \<longrightarrow>
         (\<exists>f. my_disp_flush drv s dp a px = Inl f) \<and>
         (src_ok (heap s) px 1 \<longrightarrow> my_disp_flush drv s dp a px = Inl NullDeref)) \<and>
      (\<exists>f. my_disp_flush_copilot drv s dp a px = Inl f) \<and>
      (src_ok (heap s) px 1 \<longrightarrow> my_disp_flush_copilot drv s dp a px = Inl NullDeref)"
    if h: "dma_buf s = None" "x1 a \<le> x2 a" "y1 a \<le> y2 a"
    using null_flush [OF h] n [OF h] by blast
  have 2: "\<exists>s0 dp0. exec (take 8 (setup_copilot_stmts drv e)) (boot d0) = Returned s0 \<and>
         drop 8 (setup_copilot_stmts drv e) = [c_dma e, c_ui e] \<and>
         disp s0 = Some dp0 \<and> flush_cb dp0 = Some My_disp_flush \<and> dma_buf s0 = None \<and>
         (\<forall>b qx. x1 b \<le> x2 b \<and> y1 b \<le> y2 b \<longrightarrow>
            (\<exists>f. my_disp_flush_copilot drv s0 dp0 b qx = Inl f) \<and>
            (src_ok (heap s0) qx 1 \<longrightarrow>
               my_disp_flush_copilot drv s0 dp0 b qx = Inl NullDeref))"
    if "fatal_ok e" "u32 (copilot_w drv d0) \<noteq> 0"
  proof -
    from copilot_window [OF that] obtain s0 dp0 where
      w: "exec (take 8 (setup_copilot_stmts drv e)) (boot d0) = Returned s0"
         "drop 8 (setup_copilot_stmts drv e) = [c_dma e, c_ui e]"
         "disp s0 = Some dp0" "flush_cb dp0 = Some My_disp_flush" "dma_buf s0 = None"
      by blast
    from n [OF w(5)] w show ?thesis by blast
  qed
  from 1 2 show ?thesis by blast
qed

theorem C8_needs_row_buffer_witness:
  "my_disp_flush panel_480 (tiny\<lparr>dma_buf := None\<rparr>) tiny_disp tiny_area (Ptr 1 0) = Inl NullDeref \<and>
   (\<exists>s0 dp0. exec (take 8 (setup_copilot_stmts panel_480 env_ok)) (boot ()) = Returned s0 \<and>
      disp s0 = Some dp0 \<and> flush_cb dp0 = Some My_disp_flush \<and> dma_buf s0 = None \<and>
      my_disp_flush_copilot panel_480 s0 dp0 \<lparr>x1 = 0, y1 = 0, x2 = 479, y2 = 0\<rparr> (Ptr 1 0)
        = Inl NullDeref)"
proof -
  let ?t = "tiny\<lparr>dma_buf := None\<rparr>"
  let ?a = "\<lparr>x1 = 0, y1 = 0, x2 = 479, y2 = 0\<rparr>"
  have b: "fatal_ok env_ok" by (simp add: fatal_ok_def env_ok_def)
  have w: "copilot_w panel_480 () = 480" and h: "copilot_h panel_480 () = 320"
    by (simp_all add: copilot_w_def copilot_h_def panel_480_def)
  have nz: "u32 (copilot_w panel_480 ()) \<noteq> 0" by (simp add: w u32_def)
  note c8 = C8_needs_row_buffer [of ?t tiny_area tiny_disp panel_480 "Ptr 1 0" env_ok "()"]
  have t: "dma_buf ?t = None \<and> x1 tiny_area \<le> x2 tiny_area \<and> y1 tiny_area \<le> y2 tiny_area"
    by (simp add: tiny_area_def)
  have ud: "user_data tiny_disp = Some Lcd_global" by (simp add: tiny_disp_def)
  have src: "src_ok (heap ?t) (Ptr 1 0) 1" by (simp add: src_ok_def tiny_def)
  from c8 t ud src
  have 1: "my_disp_flush panel_480 ?t tiny_disp tiny_area (Ptr 1 0) = Inl NullDeref" by blast
  from c8 b nz obtain s0 dp0 where
    r: "exec (take 8 (setup_copilot_stmts panel_480 env_ok)) (boot ()) = Returned s0"
    and d: "disp s0 = Some dp0" "flush_cb dp0 = Some My_disp_flush" "dma_buf s0 = None"
    and f: "\<forall>b qx. x1 b \<le> x2 b \<and> y1 b \<le> y2 b \<longrightarrow>
            (\<exists>f. my_disp_flush_copilot panel_480 s0 dp0 b qx = Inl f) \<and>
            (src_ok (heap s0) qx 1 \<longrightarrow>
               my_disp_flush_copilot panel_480 s0 dp0 b qx = Inl NullDeref)"
    by blast
  from copilot_window [OF b nz] r w h
  have "heap s0 1 = Some (replicate (nat (DRAW_BUF_SIZE_wh 480 320 div 2)) 0)" by auto
  then have "src_ok (heap s0) (Ptr 1 0) 1"
    by (simp add: src_ok_def DRAW_BUF_SIZE_wh_def u32_def tdiv_def)
  moreover have "x1 ?a \<le> x2 ?a \<and> y1 ?a \<le> y2 ?a" by simp
  ultimately have "my_disp_flush_copilot panel_480 s0 dp0 ?a (Ptr 1 0) = Inl NullDeref"
    using f by blast
  with 1 r d show ?thesis by blast
qed

end
